theory Spec2Isabelle
  imports Main "HOL-Library.Sublist" "HOL-Library.Product_Lexorder" "HOL-Library.AList"
begin

section \<open>Python string primitives used by klipper\_support.py\<close>

text \<open>
  Strings are lists of characters.  The functions below give the behaviour of the
  built-in \<^verbatim>\<open>str\<close> methods that the script calls: \<^verbatim>\<open>in\<close>, \<^verbatim>\<open>startswith\<close>,
  \<^verbatim>\<open>split(sep)\<close>, \<^verbatim>\<open>split()\<close>, \<^verbatim>\<open>strip()\<close> and \<^verbatim>\<open>strip(chars)\<close>.
\<close>

datatype py_error =
    FileNotFoundError string
  | NotADirectoryError string
  | IsADirectoryError string
  | FileExistsError string
  | SameFileError string
  | ValueError string
  | IndexError string
  | UnicodeDecodeError string
  | OSError string

text \<open>\<^verbatim>\<open>xs[i]\<close> for a non-negative literal index: out of range raises IndexError.\<close>

definition py_index :: "'a list \<Rightarrow> nat \<Rightarrow> py_error + 'a" where
  "py_index xs i =
     (if i < length xs then Inr (xs ! i) else Inl (IndexError ''list index out of range''))"

text \<open>\<^verbatim>\<open>s.find(sub)\<close>: the index of the first occurrence of \<open>sub\<close> in \<open>s\<close>.\<close>

fun py_find :: "string \<Rightarrow> string \<Rightarrow> nat option" where
  "py_find sub [] = (if sub = [] then Some 0 else None)"
| "py_find sub (c # cs) =
     (if prefix sub (c # cs) then Some 0 else map_option Suc (py_find sub cs))"

text \<open>\<^verbatim>\<open>sub in s\<close>.\<close>

definition py_in :: "string \<Rightarrow> string \<Rightarrow> bool" where
  "py_in sub s = (py_find sub s \<noteq> None)"

text \<open>\<^verbatim>\<open>s.startswith(p)\<close>.\<close>

definition startswith :: "string \<Rightarrow> string \<Rightarrow> bool" where
  "startswith s p = prefix p s"

lemma py_find_bound: "py_find sub s = Some i \<Longrightarrow> i + length sub \<le> length s"
proof (induction s arbitrary: i)
  case Nil
  then show ?case by (simp split: if_splits)
next
  case (Cons c cs)
  show ?case
  proof (cases "prefix sub (c # cs)")
    case True
    with Cons.prems have "i = 0" by simp
    with prefix_length_le [OF True] show ?thesis by simp
  next
    case False
    with Cons.prems obtain j where j: "py_find sub cs = Some j" "i = Suc j" by auto
    from Cons.IH [OF j(1)] j(2) show ?thesis by simp
  qed
qed

text \<open>
  \<^verbatim>\<open>s.split(sep)\<close> with a separator: the pieces between the non-overlapping
  occurrences of \<open>sep\<close>, scanned from the left.  Python raises ValueError for an empty
  separator; every call of the script passes a non-empty literal, and the model
  returns the string unsplit there.
\<close>

function py_split :: "string \<Rightarrow> string \<Rightarrow> string list" where
  "py_split sep s =
     (if sep = [] then [s]
      else case py_find sep s of
             None \<Rightarrow> [s]
           | Some i \<Rightarrow> take i s # py_split sep (drop (i + length sep) s))"
  by pat_completeness auto
termination
proof (relation "measure (\<lambda>(sep, s). length s)")
  show "wf (measure (\<lambda>(sep, s). length s))" by simp
next
  fix sep s :: string and i :: nat
  assume ne: "sep \<noteq> []" and f: "py_find sep s = Some i"
  from ne have "0 < length sep" by simp
  with py_find_bound [OF f] have "length s - (i + length sep) < length s" by arith
  then show "((sep, drop (i + length sep) s), (sep, s)) \<in> measure (\<lambda>(sep, s). length s)"
    by simp
qed

declare py_split.simps [simp del]

text \<open>
  \<^verbatim>\<open>str.isspace\<close> on the code points below 256: tab, line feed, vertical tab, form
  feed, carriage return, the separators 0x1C to 0x1F, space, NEL (0x85) and the
  no-break space (0xA0).
\<close>

definition py_isspace :: "char \<Rightarrow> bool" where
  "py_isspace c =
     (c \<in> set [CHR 0x09, CHR 0x0A, CHR 0x0B, CHR 0x0C, CHR 0x0D, CHR 0x1C, CHR 0x1D,
                CHR 0x1E, CHR 0x1F, CHR 0x20, CHR 0x85, CHR 0xA0])"

text \<open>\<^verbatim>\<open>s.strip()\<close> and \<^verbatim>\<open>s.strip(chars)\<close>.\<close>

definition py_strip :: "string \<Rightarrow> string" where
  "py_strip s = rev (dropWhile py_isspace (rev (dropWhile py_isspace s)))"

definition py_strip_chars :: "string \<Rightarrow> string \<Rightarrow> string" where
  "py_strip_chars chars s =
     rev (dropWhile (\<lambda>c. c \<in> set chars) (rev (dropWhile (\<lambda>c. c \<in> set chars) s)))"

text \<open>
  \<^verbatim>\<open>s.split()\<close> without a separator: the maximal runs of non-whitespace
  characters; leading and trailing whitespace give no empty token.
\<close>

function py_split_ws :: "string \<Rightarrow> string list" where
  "py_split_ws s =
     (case dropWhile py_isspace s of
        [] \<Rightarrow> []
      | c # cs \<Rightarrow>
          takeWhile (\<lambda>x. \<not> py_isspace x) (c # cs)
            # py_split_ws (dropWhile (\<lambda>x. \<not> py_isspace x) cs))"
  by pat_completeness auto
termination
proof (relation "measure length")
  show "wf (measure length)" by simp
next
  fix s cs :: string and c :: char
  assume d: "dropWhile py_isspace s = c # cs"
  have "length (dropWhile (\<lambda>x. \<not> py_isspace x) cs) \<le> length cs"
    by (rule length_dropWhile_le)
  moreover have "length (c # cs) \<le> length s"
    using length_dropWhile_le [of py_isspace s] d by simp
  ultimately show "(dropWhile (\<lambda>x. \<not> py_isspace x) cs, s) \<in> measure length"
    by simp
qed

declare py_split_ws.simps [simp del]

text \<open>
  \<^verbatim>\<open>repr(s)\<close>, which \<^verbatim>\<open>%r\<close> and \<^verbatim>\<open>{s!r}\<close> insert into a message: single quotes,
  or double quotes when the string holds a single quote and no double quote; the
  quote character and the backslash are escaped, tab, line feed and carriage return
  are written \<^verbatim>\<open>\t\<close>, \<^verbatim>\<open>\n\<close>, \<^verbatim>\<open>\r\<close>, and every other character that is not
  printable (below 0x20, 0x7F to 0xA0, 0xAD) is written \<^verbatim>\<open>\xhh\<close>.
\<close>

definition hex_char :: "nat \<Rightarrow> char" where
  "hex_char n = ''0123456789abcdef'' ! (n mod 16)"

definition repr_char :: "char \<Rightarrow> char \<Rightarrow> string" where
  "repr_char quote c =
     (let n = (of_char c :: nat) in
      if c = quote \<or> c = CHR 0x5C then [CHR 0x5C, c]
      else if c = CHR 0x09 then [CHR 0x5C, CHR ''t'']
      else if c = CHR 0x0A then [CHR 0x5C, CHR ''n'']
      else if c = CHR 0x0D then [CHR 0x5C, CHR ''r'']
      else if n < 32 \<or> (127 \<le> n \<and> n \<le> 160) \<or> n = 173
      then [CHR 0x5C, CHR ''x'', hex_char (n div 16), hex_char n]
      else [c])"

definition py_repr :: "string \<Rightarrow> string" where
  "py_repr s =
     (let quote = (if CHR 0x27 \<in> set s \<and> CHR 0x22 \<notin> set s then CHR 0x22 else CHR 0x27)
      in [quote] @ concat (map (repr_char quote) s) @ [quote])"

section \<open>Base-path derivation (steps 5 and 6 of main)\<close>

text \<open>
  \<^verbatim>\<open>if "printer_data" in p: base = p.split("printer_data")[0] + "printer_data/"\<close>
  \<^verbatim>\<open>else: base = p\<close> (with a warning printed, see \<open>main\<close>).
\<close>

definition marker :: string where
  "marker = ''printer_data''"

definition derive_base :: "string \<Rightarrow> py_error + string" where
  "derive_base p =
     (if py_in marker p
      then case py_index (py_split marker p) 0 of
             Inl e \<Rightarrow> Inl e
           | Inr h \<Rightarrow> Inr (h @ marker @ ''/'')
      else Inr p)"


section \<open>The Locator: reading the service file and the environment file\<close>

text \<open>
  A text file is the string that \<^verbatim>\<open>open(path, 'r')\<close> decodes from it (line ends
  already translated to the line feed).  \<^verbatim>\<open>f.readlines()\<close> cuts it after every line
  feed and keeps the line feeds; \<^verbatim>\<open>f.readline()\<close> on a fresh file object is the
  first of these lines, or the empty string for an empty file.
\<close>

fun lines_from :: "string \<Rightarrow> string \<Rightarrow> string list" where
  "lines_from cur [] = (if cur = [] then [] else [cur])"
| "lines_from cur (c # cs) =
     (if c = CHR 0x0A then (cur @ [c]) # lines_from [] cs else lines_from (cur @ [c]) cs)"

definition readlines :: "string \<Rightarrow> string list" where
  "readlines content = lines_from [] content"

definition readline :: "string \<Rightarrow> string" where
  "readline content = (case readlines content of [] \<Rightarrow> [] | l # _ \<Rightarrow> l)"

text \<open>
  Lines 81 to 84: the first line that starts with \<^verbatim>\<open>EnvironmentFile\<close>, split at
  \<^verbatim>\<open>=\<close>, second piece, stripped.
\<close>

definition extract_environment_file :: "string list \<Rightarrow> py_error + string" where
  "extract_environment_file lines =
     (case filter (\<lambda>line. startswith line ''EnvironmentFile'') lines of
        [] \<Rightarrow> Inl (ValueError ''EnvironmentFile not found in klipper.service.'')
      | first # _ \<Rightarrow>
          (case py_index (py_split ''='' first) 1 of
             Inl e \<Rightarrow> Inl e
           | Inr v \<Rightarrow> Inr (py_strip v)))"

text \<open>
  Lines 96 to 99, from the line that \<^verbatim>\<open>readline\<close> returned: strip it, split at
  \<^verbatim>\<open>=\<close>, take the second piece, strip double quotes from its ends, split at
  whitespace, and take the tokens 1 (printer.cfg path) and 5 (log file path).
\<close>

definition extract_paths :: "string \<Rightarrow> py_error + (string \<times> string)" where
  "extract_paths first_line =
     (let klipper_args_line = py_strip first_line in
      case py_index (py_split ''='' klipper_args_line) 1 of
        Inl e \<Rightarrow> Inl e
      | Inr v \<Rightarrow>
          (let klipper_args = py_split_ws (py_strip_chars [CHR 0x22] v) in
           case py_index klipper_args 1 of
             Inl e \<Rightarrow> Inl e
           | Inr printer_cfg_path \<Rightarrow>
               (case py_index klipper_args 5 of
                  Inl e \<Rightarrow> Inl e
                | Inr log_file_path \<Rightarrow> Inr (printer_cfg_path, log_file_path))))"

section \<open>Library functions used by get\_newest\_log\<close>

text \<open>\<^verbatim>\<open>str(e)\<close>: every exception carries its message.\<close>

fun str_of :: "py_error \<Rightarrow> string" where
  "str_of (FileNotFoundError m) = m"
| "str_of (NotADirectoryError m) = m"
| "str_of (IsADirectoryError m) = m"
| "str_of (FileExistsError m) = m"
| "str_of (SameFileError m) = m"
| "str_of (ValueError m) = m"
| "str_of (IndexError m) = m"
| "str_of (UnicodeDecodeError m) = m"
| "str_of (OSError m) = m"

subsection \<open>The regular expression of the rotation filter\<close>

text \<open>
  \<^verbatim>\<open>re.match(r'^.*\.log\.\d{4}-\d{2}-\d{2}$', f)\<close>.  The pattern is a sequence of
  single-character items, the first of them starred; \<^verbatim>\<open>.\<close> accepts every
  character but the line feed, \<^verbatim>\<open>\d\<close> a decimal digit, and \<^verbatim>\<open>$\<close> (the end of
  the item list) holds at the end of the string and just before a line feed that
  ends the string.
\<close>

definition is_digit :: "char \<Rightarrow> bool" where
  "is_digit c = (c \<in> set ''0123456789'')"

datatype rx_atom = Dot | Digit | Lit char

fun rx_accepts :: "rx_atom \<Rightarrow> char \<Rightarrow> bool" where
  "rx_accepts Dot c = (c \<noteq> CHR 0x0A)"
| "rx_accepts Digit c = is_digit c"
| "rx_accepts (Lit a) c = (c = a)"

datatype rx_item = One rx_atom | Star rx_atom

fun re_match :: "rx_item list \<Rightarrow> string \<Rightarrow> bool" where
  "re_match [] s = (s = [] \<or> s = [CHR 0x0A])"
| "re_match (One a # ps) [] = False"
| "re_match (One a # ps) (c # cs) = (rx_accepts a c \<and> re_match ps cs)"
| "re_match (Star a # ps) [] = re_match ps []"
| "re_match (Star a # ps) (c # cs) =
     ((rx_accepts a c \<and> re_match (Star a # ps) cs) \<or> re_match ps (c # cs))"

definition rotation_pattern :: "rx_item list" where
  "rotation_pattern =
     [Star Dot] @ map (\<lambda>c. One (Lit c)) ''.log.''
       @ replicate 4 (One Digit) @ [One (Lit (CHR ''-''))]
       @ replicate 2 (One Digit) @ [One (Lit (CHR ''-''))]
       @ replicate 2 (One Digit)"

subsection \<open>datetime.strptime with the format \%Y-\%m-\%d\<close>

text \<open>
  The library turns the format into the regular expression
  \<^verbatim>\<open>(\d\d\d\d)-(1[0-2]|0[1-9]|[1-9])-(3[01]|[12]\d|0[1-9]|[1-9]| [1-9])\<close>, matches
  it at the start of the string, raises ValueError when it does not match or when
  characters remain after the match, and then builds the date, which raises
  ValueError for the year 0 and for a day beyond the end of the month.  The result
  is the triple (year, month, day); dates compare lexicographically.
\<close>

type_synonym date = "nat \<times> nat \<times> nat"

definition digit_val :: "char \<Rightarrow> nat" where
  "digit_val c = of_char c - 48"

fun parse_year :: "string \<Rightarrow> (nat \<times> string) option" where
  "parse_year (a # b # c # d # r) =
     (if is_digit a \<and> is_digit b \<and> is_digit c \<and> is_digit d
      then Some (1000 * digit_val a + 100 * digit_val b + 10 * digit_val c + digit_val d, r)
      else None)"
| "parse_year s = None"

definition is_nonzero_digit :: "char \<Rightarrow> bool" where
  "is_nonzero_digit c = (c \<in> set ''123456789'')"

fun parse_month :: "string \<Rightarrow> (nat \<times> string) option" where
  "parse_month (a # b # r) =
     (if a = CHR ''1'' \<and> b \<in> set ''012'' then Some (10 + digit_val b, r)
      else if a = CHR ''0'' \<and> is_nonzero_digit b then Some (digit_val b, r)
      else if is_nonzero_digit a then Some (digit_val a, b # r)
      else None)"
| "parse_month [a] = (if is_nonzero_digit a then Some (digit_val a, []) else None)"
| "parse_month [] = None"

fun parse_day :: "string \<Rightarrow> (nat \<times> string) option" where
  "parse_day (a # b # r) =
     (if a = CHR ''3'' \<and> b \<in> set ''01'' then Some (30 + digit_val b, r)
      else if a \<in> set ''12'' \<and> is_digit b then Some (10 * digit_val a + digit_val b, r)
      else if a = CHR ''0'' \<and> is_nonzero_digit b then Some (digit_val b, r)
      else if is_nonzero_digit a then Some (digit_val a, b # r)
      else if a = CHR '' '' \<and> is_nonzero_digit b then Some (digit_val b, r)
      else None)"
| "parse_day [a] = (if is_nonzero_digit a then Some (digit_val a, []) else None)"
| "parse_day [] = None"

fun parse_dash :: "string \<Rightarrow> string option" where
  "parse_dash (c # r) = (if c = CHR ''-'' then Some r else None)"
| "parse_dash [] = None"

definition is_leap :: "nat \<Rightarrow> bool" where
  "is_leap y = (y mod 4 = 0 \<and> (y mod 100 \<noteq> 0 \<or> y mod 400 = 0))"

definition days_in_month :: "nat \<Rightarrow> nat \<Rightarrow> nat" where
  "days_in_month y m =
     (if m = 2 then (if is_leap y then 29 else 28)
      else if m \<in> set [4, 6, 9, 11] then 30 else 31)"

definition no_match :: "string \<Rightarrow> py_error" where
  "no_match s =
     ValueError (''time data '' @ py_repr s @ '' does not match format '' @ py_repr ''%Y-%m-%d'')"

definition strptime :: "string \<Rightarrow> py_error + date" where
  "strptime s =
     (case parse_year s of
        None \<Rightarrow> Inl (no_match s)
      | Some (y, r1) \<Rightarrow>
     (case parse_dash r1 of
        None \<Rightarrow> Inl (no_match s)
      | Some r2 \<Rightarrow>
     (case parse_month r2 of
        None \<Rightarrow> Inl (no_match s)
      | Some (m, r3) \<Rightarrow>
     (case parse_dash r3 of
        None \<Rightarrow> Inl (no_match s)
      | Some r4 \<Rightarrow>
     (case parse_day r4 of
        None \<Rightarrow> Inl (no_match s)
      | Some (d, r5) \<Rightarrow>
          if r5 \<noteq> [] then Inl (ValueError (''unconverted data remains: '' @ r5))
          else if y < 1 then Inl (ValueError ''year 0 is out of range'')
          else if days_in_month y m < d then Inl (ValueError ''day is out of range for month'')
          else Inr (y, m, d))))))"

section \<open>get\_newest\_log\<close>

text \<open>
  The list comprehension of lines 46 to 49: the names of the listing that start
  with the prefix and match the rotation pattern, in listing order.
\<close>

definition log_files_of :: "string list \<Rightarrow> string \<Rightarrow> string list" where
  "log_files_of all_files log_prefix =
     filter (\<lambda>f. startswith f log_prefix \<and> re_match rotation_pattern f) all_files"

text \<open>The sort key of line 57: \<^verbatim>\<open>datetime.strptime(f.split('.log.')[1], "%Y-%m-%d")\<close>.\<close>

definition sort_key_of :: "string \<Rightarrow> py_error + date" where
  "sort_key_of f =
     (case py_index (py_split ''.log.'' f) 1 of
        Inl e \<Rightarrow> Inl e
      | Inr date_string \<Rightarrow> strptime date_string)"

text \<open>
  \<^verbatim>\<open>list.sort(key=..., reverse=True)\<close> computes the key of every element, in list
  order, before it compares any two; the first key that raises ends the sort with
  that exception.  With all keys computed, the sort is stable and descending:
  elements with equal keys keep their order.
\<close>

fun compute_keys :: "string list \<Rightarrow> py_error + (date \<times> string) list" where
  "compute_keys [] = Inr []"
| "compute_keys (f # rest) =
     (case sort_key_of f of
        Inl e \<Rightarrow> Inl e
      | Inr k \<Rightarrow>
          (case compute_keys rest of
             Inl e \<Rightarrow> Inl e
           | Inr ks \<Rightarrow> Inr ((k, f) # ks)))"

definition sort_reverse :: "(date \<times> string) list \<Rightarrow> string list" where
  "sort_reverse ks = map snd (rev (sort_key fst (rev ks)))"

text \<open>
  The body of \<^verbatim>\<open>get_newest_log\<close> after \<^verbatim>\<open>os.listdir\<close>: the lines it prints and
  what it returns (\<open>None\<close> for Python's None) or raises.
\<close>

definition newest_of :: "string list \<Rightarrow> string \<Rightarrow> string list \<times> (py_error + string option)" where
  "newest_of all_files log_prefix =
     (let log_files = log_files_of all_files log_prefix in
      if log_files = [] then ([], Inr None)
      else case compute_keys log_files of
             Inl e \<Rightarrow> ([''Error while parsing log filenames: '' @ str_of e], Inr None)
           | Inr ks \<Rightarrow>
               (case py_index (sort_reverse ks) 0 of
                  Inl e \<Rightarrow> ([], Inl e)
                | Inr newest \<Rightarrow> ([], Inr (Some newest))))"

subsection \<open>The rotation names in the words of the specification\<close>

text \<open>
  A rotation name is \<^verbatim>\<open><stem>.log.<YYYY-MM-DD>\<close>: it ends with \<^verbatim>\<open>.log.\<close> and ten
  characters, four digits, a dash, two digits, a dash and two digits, and the stem
  before them holds no line feed.  Its date suffix is the last ten characters.
  These definitions are not taken from the code; the theorems compare them with the
  filter and the sort key of \<^verbatim>\<open>get_newest_log\<close>.
\<close>

definition date_shape :: "string \<Rightarrow> bool" where
  "date_shape d =
     list_all2 (\<lambda>dash c. if dash then c = CHR ''-'' else is_digit c)
       [False, False, False, False, True, False, False, True, False, False] d"

definition date_suffix :: "string \<Rightarrow> string" where
  "date_suffix f = drop (length f - 10) f"

definition rotation_form :: "string \<Rightarrow> bool" where
  "rotation_form f =
     (15 \<le> length f
      \<and> CHR 0x0A \<notin> set (take (length f - 15) f)
      \<and> take 5 (drop (length f - 15) f) = ''.log.''
      \<and> date_shape (date_suffix f))"

text \<open>The single-character items of the pattern after the leading \<^verbatim>\<open>.*\<close>.\<close>

definition rotation_atoms :: "rx_atom list" where
  "rotation_atoms =
     map Lit ''.log.'' @ replicate 4 Digit @ [Lit (CHR ''-'')] @ replicate 2 Digit
       @ [Lit (CHR ''-'')] @ replicate 2 Digit"

section \<open>The host: file system, console, clock and external commands\<close>

text \<open>
  The data of a regular file is text, or a zip archive given by its entries (name
  and data, in the order in which they were written).  A directory is the list of
  its entries in the order in which the operating system lists them.  The file
  system has no symbolic links and no access rights.
\<close>

datatype fdata = Text string | Zip "(string \<times> fdata) list"

datatype node = File fdata | Dir "(string \<times> node) list"

type_synonym path = "string list"

fun fs_lookup :: "node \<Rightarrow> path \<Rightarrow> node option" where
  "fs_lookup n [] = Some n"
| "fs_lookup (File d) (c # cs) = None"
| "fs_lookup (Dir es) (c # cs) =
     (case map_of es c of None \<Rightarrow> None | Some n \<Rightarrow> fs_lookup n cs)"

text \<open>
  \<open>fs_put root p n\<close> stores \<open>n\<close> at \<open>p\<close>, replacing what is there; the parent
  of \<open>p\<close> must be a directory.  \<open>fs_remove root p\<close> removes the node at \<open>p\<close>.
\<close>

fun fs_put :: "node \<Rightarrow> path \<Rightarrow> node \<Rightarrow> node option" where
  "fs_put n [] new = Some new"
| "fs_put (File d) (c # cs) new = None"
| "fs_put (Dir es) [c] new = Some (Dir (AList.update c new es))"
| "fs_put (Dir es) (c # d # cs) new =
     (case map_of es c of
        None \<Rightarrow> None
      | Some n \<Rightarrow>
          (case fs_put n (d # cs) new of
             None \<Rightarrow> None
           | Some n' \<Rightarrow> Some (Dir (AList.update c n' es))))"

fun fs_remove :: "node \<Rightarrow> path \<Rightarrow> node option" where
  "fs_remove n [] = None"
| "fs_remove (File d) (c # cs) = None"
| "fs_remove (Dir es) [c] = Some (Dir (AList.delete c es))"
| "fs_remove (Dir es) (c # d # cs) =
     (case map_of es c of
        None \<Rightarrow> None
      | Some n \<Rightarrow>
          (case fs_remove n (d # cs) of
             None \<Rightarrow> None
           | Some n' \<Rightarrow> Some (Dir (AList.update c n' es))))"

text \<open>The broken-down local time that \<^verbatim>\<open>time.strftime\<close> formats.\<close>

record tm =
  tm_year :: nat
  tm_mon :: nat
  tm_mday :: nat
  tm_hour :: nat
  tm_min :: nat
  tm_sec :: nat

text \<open>
  What \<^verbatim>\<open>subprocess.run\<close> finds when it starts a command: the executable is
  missing, or the process runs, writes to its standard output and exits with a
  status.
\<close>

datatype process = NotFound | Exited int string

record world =
  fs :: node
  cwd :: path
  console :: "string list"
  clock :: "nat \<Rightarrow> tm"
  ticks :: nat
  commands :: "string list \<Rightarrow> process"
  platform_platform :: string

text \<open>
  An action runs in a world and returns a value or raises, together with the world
  it leaves behind.
\<close>

type_synonym 'a action = "world \<Rightarrow> (py_error + 'a) \<times> world"

definition ret :: "'a \<Rightarrow> 'a action" where
  "ret x w = (Inr x, w)"

definition raise :: "py_error \<Rightarrow> 'a action" where
  "raise e w = (Inl e, w)"

definition bind :: "'a action \<Rightarrow> ('a \<Rightarrow> 'b action) \<Rightarrow> 'b action" where
  "bind m f w = (case m w of (Inl e, w') \<Rightarrow> (Inl e, w') | (Inr x, w') \<Rightarrow> f x w')"

definition lift :: "py_error + 'a \<Rightarrow> 'a action" where
  "lift r w = (r, w)"

subsection \<open>os.path\<close>

definition slash :: char where
  "slash = CHR ''/''"

text \<open>\<^verbatim>\<open>os.path.join(a, b)\<close>, \<^verbatim>\<open>os.path.dirname(p)\<close>, \<^verbatim>\<open>os.path.basename(p)\<close> (posixpath).\<close>

definition os_path_join :: "string \<Rightarrow> string \<Rightarrow> string" where
  "os_path_join a b =
     (if startswith b [slash] then b
      else if a = [] \<or> last a = slash then a @ b
      else a @ [slash] @ b)"

definition os_path_dirname :: "string \<Rightarrow> string" where
  "os_path_dirname p =
     (let head = rev (dropWhile (\<lambda>c. c \<noteq> slash) (rev p)) in
      if head \<noteq> [] \<and> \<not> (\<forall>c \<in> set head. c = slash)
      then rev (dropWhile (\<lambda>c. c = slash) (rev head))
      else head)"

definition os_path_basename :: "string \<Rightarrow> string" where
  "os_path_basename p = rev (takeWhile (\<lambda>c. c \<noteq> slash) (rev p))"

text \<open>
  The components of a path: empty components and \<^verbatim>\<open>.\<close> are dropped, \<^verbatim>\<open>..\<close>
  removes the component before it (\<^verbatim>\<open>os.path.normpath\<close>; without symbolic links
  the operating system resolves an existing path to the same node).  A relative
  path starts at the working directory.  The empty path names nothing.
\<close>

fun normalize :: "path \<Rightarrow> string list \<Rightarrow> path" where
  "normalize acc [] = acc"
| "normalize acc (c # cs) =
     (if c = [] \<or> c = ''.'' then normalize acc cs
      else if c = ''..'' then normalize (butlast acc) cs
      else normalize (acc @ [c]) cs)"

definition abs_components :: "world \<Rightarrow> string \<Rightarrow> path" where
  "abs_components w p =
     normalize (if startswith p [slash] then [] else cwd w) (py_split [slash] p)"

definition resolve :: "world \<Rightarrow> string \<Rightarrow> node option" where
  "resolve w p = (if p = [] then None else fs_lookup (fs w) (abs_components w p))"

definition os_path_exists :: "world \<Rightarrow> string \<Rightarrow> bool" where
  "os_path_exists w p = (resolve w p \<noteq> None)"

definition os_path_isdir :: "world \<Rightarrow> string \<Rightarrow> bool" where
  "os_path_isdir w p = (case resolve w p of Some (Dir es) \<Rightarrow> True | _ \<Rightarrow> False)"

text \<open>\<^verbatim>\<open>os.path.relpath(p, start)\<close>.\<close>

fun drop_common :: "path \<Rightarrow> path \<Rightarrow> path \<times> path" where
  "drop_common (a # as) (b # bs) = (if a = b then drop_common as bs else (a # as, b # bs))"
| "drop_common as bs = (as, bs)"

definition os_path_relpath :: "world \<Rightarrow> string \<Rightarrow> string \<Rightarrow> string" where
  "os_path_relpath w p start =
     (case drop_common (abs_components w start) (abs_components w p) of
        (start_rest, path_rest) \<Rightarrow>
          (case replicate (length start_rest) ''..'' @ path_rest of
             [] \<Rightarrow> ''.''
           | c # cs \<Rightarrow> foldl os_path_join c cs))"

subsection \<open>Files and directories\<close>

text \<open>The messages of the operating-system errors show the path as \<^verbatim>\<open>repr\<close> prints it.\<close>

definition quoted :: "string \<Rightarrow> string" where
  "quoted p = py_repr p"

definition enoent :: "string \<Rightarrow> py_error" where
  "enoent p = FileNotFoundError (''[Errno 2] No such file or directory: '' @ quoted p)"

definition eisdir :: "string \<Rightarrow> py_error" where
  "eisdir p = IsADirectoryError (''[Errno 21] Is a directory: '' @ quoted p)"

definition enotdir :: "string \<Rightarrow> py_error" where
  "enotdir p = NotADirectoryError (''[Errno 20] Not a directory: '' @ quoted p)"

definition eexist :: "string \<Rightarrow> py_error" where
  "eexist p = FileExistsError (''[Errno 17] File exists: '' @ quoted p)"

text \<open>
  Reading a file: \<^verbatim>\<open>open(p, 'r')\<close> and reading raise for a missing path and for a
  directory (a path that runs through a regular file is reported like a missing
  one); the bytes of an archive do not decode as text.  \<open>read_data\<close> is the binary
  read that \<^verbatim>\<open>shutil\<close> and \<^verbatim>\<open>zipfile\<close> do.
\<close>

definition read_data :: "world \<Rightarrow> string \<Rightarrow> py_error + fdata" where
  "read_data w p =
     (case resolve w p of
        None \<Rightarrow> Inl (enoent p)
      | Some (Dir es) \<Rightarrow> Inl (eisdir p)
      | Some (File d) \<Rightarrow> Inr d)"

definition read_text :: "world \<Rightarrow> string \<Rightarrow> py_error + string" where
  "read_text w p =
     (case read_data w p of
        Inl e \<Rightarrow> Inl e
      | Inr (Text s) \<Rightarrow> Inr s
      | Inr (Zip es) \<Rightarrow>
          Inl (UnicodeDecodeError ''utf-8 codec cannot decode the bytes of an archive''))"

text \<open>
  Creating or truncating a file and storing its data (\<^verbatim>\<open>open(p, 'w')\<close> and the
  writes up to \<^verbatim>\<open>close\<close>): the parent directory must exist and \<open>p\<close> must not be a
  directory.
\<close>

definition write_data :: "string \<Rightarrow> fdata \<Rightarrow> unit action" where
  "write_data p d w =
     (if p = [] then (Inl (enoent p), w)
      else case fs_lookup (fs w) (abs_components w p) of
             Some (Dir es) \<Rightarrow> (Inl (eisdir p), w)
           | _ \<Rightarrow>
               (case fs_put (fs w) (abs_components w p) (File d) of
                  None \<Rightarrow> (Inl (enoent p), w)
                | Some root \<Rightarrow> (Inr (), w\<lparr>fs := root\<rparr>)))"

text \<open>
  \<^verbatim>\<open>shutil.copy(src, dst)\<close>: into a directory the file keeps its base name; the
  source and the target must not be the same file; the source is read and the
  target written.
\<close>

definition shutil_copy :: "string \<Rightarrow> string \<Rightarrow> unit action" where
  "shutil_copy src dst w =
     (let target = (if os_path_isdir w dst then os_path_join dst (os_path_basename src) else dst)
      in if os_path_exists w src \<and> os_path_exists w target
            \<and> abs_components w src = abs_components w target
         then (Inl (SameFileError (quoted src @ '' and '' @ quoted target @ '' are the same file'')), w)
         else case read_data w src of
                Inl e \<Rightarrow> (Inl e, w)
              | Inr d \<Rightarrow> write_data target d w)"

text \<open>\<^verbatim>\<open>os.listdir(p)\<close>: the names of the entries, in directory order.\<close>

definition os_listdir :: "world \<Rightarrow> string \<Rightarrow> py_error + string list" where
  "os_listdir w p =
     (case resolve w p of
        None \<Rightarrow> Inl (enoent p)
      | Some (File d) \<Rightarrow> Inl (enotdir p)
      | Some (Dir es) \<Rightarrow> Inr (map fst es))"

text \<open>\<^verbatim>\<open>shutil.rmtree(p)\<close> and \<^verbatim>\<open>os.makedirs(p, exist_ok=True)\<close>.\<close>

definition shutil_rmtree :: "string \<Rightarrow> unit action" where
  "shutil_rmtree p w =
     (case resolve w p of
        None \<Rightarrow> (Inl (enoent p), w)
      | Some (File d) \<Rightarrow> (Inl (enotdir p), w)
      | Some (Dir es) \<Rightarrow>
          (case fs_remove (fs w) (abs_components w p) of
             None \<Rightarrow> (Inl (OSError (''Cannot call rmtree on '' @ quoted p)), w)
           | Some root \<Rightarrow> (Inr (), w\<lparr>fs := root\<rparr>)))"

fun mk_dirs :: "node \<Rightarrow> path \<Rightarrow> node option" where
  "mk_dirs (Dir es) [] = Some (Dir es)"
| "mk_dirs (File d) cs = None"
| "mk_dirs (Dir es) (c # cs) =
     (case mk_dirs (case map_of es c of None \<Rightarrow> Dir [] | Some n \<Rightarrow> n) cs of
        None \<Rightarrow> None
      | Some n' \<Rightarrow> Some (Dir (AList.update c n' es)))"

definition os_makedirs :: "string \<Rightarrow> unit action" where
  "os_makedirs p w =
     (if p = [] then (Inl (enoent p), w)
      else case mk_dirs (fs w) (abs_components w p) of
             None \<Rightarrow> (Inl (eexist p), w)
           | Some root \<Rightarrow> (Inr (), w\<lparr>fs := root\<rparr>))"

text \<open>
  \<^verbatim>\<open>shutil.copytree(src, dst)\<close>: the source must be a directory and the target must
  not exist; the parents of the target are created and the tree is copied.  A
  target inside the source makes the copy descend into its own output until the
  operating system refuses the path.
\<close>

definition shutil_copytree :: "string \<Rightarrow> string \<Rightarrow> unit action" where
  "shutil_copytree src dst w =
     (case resolve w src of
        None \<Rightarrow> (Inl (enoent src), w)
      | Some (File d) \<Rightarrow> (Inl (enotdir src), w)
      | Some (Dir es) \<Rightarrow>
          if dst = [] then (Inl (enoent dst), w)
          else if os_path_exists w dst then (Inl (eexist dst), w)
          else if prefix (abs_components w src) (abs_components w dst)
          then (Inl (OSError (''[Errno 36] File name too long: '' @ quoted dst)), w)
          else case mk_dirs (fs w) (butlast (abs_components w dst)) of
                 None \<Rightarrow> (Inl (eexist dst), w)
               | Some root \<Rightarrow>
                   (case fs_put root (abs_components w dst) (Dir es) of
                      None \<Rightarrow> (Inl (enoent dst), w)
                    | Some root' \<Rightarrow> (Inr (), w\<lparr>fs := root'\<rparr>)))"

text \<open>
  \<^verbatim>\<open>os.walk(top)\<close>, top down: for every directory its path, the names of its
  sub-directories and the names of its files; then the sub-directories in order.
  A top that is not a directory yields nothing.
\<close>

fun walk_node :: "string \<Rightarrow> node \<Rightarrow> (string \<times> string list \<times> string list) list"
  and walk_entries :: "string \<Rightarrow> (string \<times> node) list \<Rightarrow> (string \<times> string list \<times> string list) list"
where
  "walk_node dir_path (File d) = []"
| "walk_node dir_path (Dir es) =
     (dir_path, map fst (filter (\<lambda>(name, n). case n of Dir x \<Rightarrow> True | File x \<Rightarrow> False) es),
           map fst (filter (\<lambda>(name, n). case n of Dir x \<Rightarrow> False | File x \<Rightarrow> True) es))
       # walk_entries dir_path es"
| "walk_entries dir_path [] = []"
| "walk_entries dir_path ((name, n) # es) = walk_node (os_path_join dir_path name) n @ walk_entries dir_path es"

definition os_walk :: "world \<Rightarrow> string \<Rightarrow> (string \<times> string list \<times> string list) list" where
  "os_walk w dir_path = (case resolve w dir_path of None \<Rightarrow> [] | Some n \<Rightarrow> walk_node dir_path n)"

subsection \<open>zipfile, time and subprocess\<close>

text \<open>
  \<^verbatim>\<open>zipfile.ZipFile(p, 'w', ...)\<close> creates or truncates the archive;
  \<^verbatim>\<open>zipf.write(file, arcname)\<close> appends one entry with the data of the file (for a
  directory an empty entry whose name ends with a slash).
\<close>

definition zipfile_open :: "string \<Rightarrow> unit action" where
  "zipfile_open p = write_data p (Zip [])"

definition zipfile_write :: "string \<Rightarrow> string \<Rightarrow> string \<Rightarrow> unit action" where
  "zipfile_write zip_path file arcname w =
     (case resolve w file of
        None \<Rightarrow> (Inl (enoent file), w)
      | Some n \<Rightarrow>
          (case resolve w zip_path of
             Some (File (Zip entries)) \<Rightarrow>
               write_data zip_path
                 (Zip (entries @ [case n of File d \<Rightarrow> (arcname, d)
                                          | Dir es \<Rightarrow> (arcname @ [slash], Text [])])) w
           | _ \<Rightarrow> (Inl (ValueError ''Attempt to write to ZIP archive that was already closed''), w)))"

text \<open>
  \<^verbatim>\<open>time.strftime("%Y%m%d_%H%M%S")\<close> reads the clock; every reading is the next
  value of the clock of the world.  The year is printed with four digits (years
  1000 to 9999).
\<close>

definition digit_char :: "nat \<Rightarrow> char" where
  "digit_char d = char_of (48 + d mod 10)"

definition pad2 :: "nat \<Rightarrow> string" where
  "pad2 n = [digit_char (n div 10), digit_char n]"

definition pad4 :: "nat \<Rightarrow> string" where
  "pad4 n = [digit_char (n div 1000), digit_char (n div 100), digit_char (n div 10), digit_char n]"

definition format_stamp :: "tm \<Rightarrow> string" where
  "format_stamp t =
     pad4 (tm_year t) @ pad2 (tm_mon t) @ pad2 (tm_mday t) @ ''_''
       @ pad2 (tm_hour t) @ pad2 (tm_min t) @ pad2 (tm_sec t)"

definition time_strftime :: "string action" where
  "time_strftime w = (Inr (format_stamp (clock w (ticks w))), w\<lparr>ticks := Suc (ticks w)\<rparr>)"

text \<open>
  \<^verbatim>\<open>subprocess.run(argv, stdout=f, text=True)\<close>: a missing executable raises
  FileNotFoundError; otherwise the process writes its output to the file and the
  exit status is not looked at (no \<^verbatim>\<open>check=True\<close>).  The result is the text that
  reached the file.
\<close>

definition subprocess_run :: "string list \<Rightarrow> string action" where
  "subprocess_run argv w =
     (case commands w argv of
        NotFound \<Rightarrow> (Inl (enoent (case argv of [] \<Rightarrow> [] | a # x \<Rightarrow> a)), w)
      | Exited status out \<Rightarrow> (Inr out, w))"

section \<open>The script\<close>

definition seq :: "unit action \<Rightarrow> 'a action \<Rightarrow> 'a action" where
  "seq m k = bind m (\<lambda>u. k)"

text \<open>\<open>on_error m h\<close>: when \<open>m\<close> raises, \<open>h\<close> runs and the exception goes on.\<close>

definition on_error :: "'a action \<Rightarrow> unit action \<Rightarrow> 'a action" where
  "on_error m h w =
     (case m w of
        (Inl e, w') \<Rightarrow> (Inl e, snd (h w'))
      | (Inr x, w') \<Rightarrow> (Inr x, w'))"

subsection \<open>Colors, status\_message, step\_message, ensure\_empty\_dir\<close>

definition OKCYAN :: string where "OKCYAN = [CHR 0x1B] @ ''[96m''"
definition OKGREEN :: string where "OKGREEN = [CHR 0x1B] @ ''[92m''"
definition WARNING :: string where "WARNING = [CHR 0x1B] @ ''[93m''"
definition FAIL :: string where "FAIL = [CHR 0x1B] @ ''[91m''"
definition ENDC :: string where "ENDC = [CHR 0x1B] @ ''[0m''"
definition BOLD :: string where "BOLD = [CHR 0x1B] @ ''[1m''"

definition print :: "string \<Rightarrow> unit action" where
  "print line w = (Inr (), w\<lparr>console := console w @ [line]\<rparr>)"

definition status_message :: "string \<Rightarrow> bool \<Rightarrow> unit action" where
  "status_message message success =
     (if success then print (OKGREEN @ ''[OK] '' @ message @ ENDC)
      else print (FAIL @ ''[FAIL] '' @ message @ ENDC))"

definition step_message :: "string \<Rightarrow> unit action" where
  "step_message message = print (OKCYAN @ message @ ''...'' @ ENDC)"

definition ensure_empty_dir :: "string \<Rightarrow> unit action" where
  "ensure_empty_dir path =
     seq (\<lambda>w. if os_path_exists w path then shutil_rmtree path w else ret () w)
         (os_makedirs path)"

subsection \<open>get\_newest\_log\<close>

definition get_newest_log :: "string \<Rightarrow> string \<Rightarrow> string option action" where
  "get_newest_log log_dir log_prefix w =
     (case os_listdir w log_dir of
        Inl e \<Rightarrow> (Inl e, w)
      | Inr all_files \<Rightarrow>
          (case newest_of all_files log_prefix of
             (printed, result) \<Rightarrow> (result, w\<lparr>console := console w @ printed\<rparr>)))"

subsection \<open>main, step by step\<close>

definition klipper_service_path :: string where
  "klipper_service_path = ''/etc/systemd/system/klipper.service''"

definition support_dir :: string where
  "support_dir = ''/tmp/klipper_support''"

definition zip_path :: string where
  "zip_path = ''/tmp/klipper_support.zip''"

text \<open>Step 1, lines 70 to 74.\<close>

definition check_service :: "unit action" where
  "check_service =
     seq (step_message ''Checking klipper.service'')
    (seq (\<lambda>w. if \<not> os_path_exists w klipper_service_path
              then raise (FileNotFoundError (klipper_service_path @ '' does not exist.'')) w
              else ret () w)
         (status_message ''klipper.service found'' True))"

text \<open>Step 2, lines 77 to 85: the path of the environment file.\<close>

definition read_service :: "string action" where
  "read_service =
     seq (step_message ''Reading klipper.service content'')
    (bind (\<lambda>w. lift (read_text w klipper_service_path) w) (\<lambda>content.
     bind (lift (extract_environment_file (readlines content))) (\<lambda>environment_file_path.
     seq (status_message ''EnvironmentFile path extracted'' True)
         (ret environment_file_path))))"

text \<open>Step 3, lines 88 to 91.\<close>

definition check_environment_file :: "string \<Rightarrow> unit action" where
  "check_environment_file environment_file_path =
     seq (step_message ''Checking EnvironmentFile existence'')
    (seq (\<lambda>w. if \<not> os_path_exists w environment_file_path
              then raise (FileNotFoundError (environment_file_path @ '' does not exist.'')) w
              else ret () w)
         (status_message ''EnvironmentFile found'' True))"

text \<open>Step 4, lines 94 to 100: the printer.cfg path and the log file path.\<close>

definition read_environment_file :: "string \<Rightarrow> (string \<times> string) action" where
  "read_environment_file environment_file_path =
     seq (step_message ''Reading EnvironmentFile content'')
    (bind (\<lambda>w. lift (read_text w environment_file_path) w) (\<lambda>content.
     bind (lift (extract_paths (readline content))) (\<lambda>paths.
     seq (status_message ''Paths extracted from EnvironmentFile'' True)
         (ret paths))))"

text \<open>
  Steps 5 and 6, lines 103 to 118: the same code twice, for printer.cfg and for the
  log file, with the texts \<open>what\<close> and \<open>label\<close> of each.
\<close>

definition determine_base_path :: "string \<Rightarrow> string \<Rightarrow> string \<Rightarrow> string action" where
  "determine_base_path what label p =
     seq (step_message (''Determining base_path for '' @ what))
    (bind (lift (derive_base p)) (\<lambda>base_path.
     seq (if py_in marker p then ret ()
          else print (WARNING @ ''Warning: Non-standard installation for '' @ what @ '' at ''
                        @ base_path @ ENDC))
    (seq (status_message (label @ base_path) True)
         (ret base_path))))"

text \<open>Step 7, lines 121 to 124.\<close>

definition prepare_support_dir :: "unit action" where
  "prepare_support_dir =
     seq (step_message ''Preparing support directory'')
    (seq (ensure_empty_dir support_dir)
         (status_message ''Support directory prepared'' True))"

text \<open>Lines 127 to 147.  The loop over \<^verbatim>\<open>files_to_copy\<close>:\<close>

fun copy_files :: "string \<Rightarrow> string list \<Rightarrow> unit action" where
  "copy_files log_dir [] = ret ()"
| "copy_files log_dir (file # files) =
     seq (\<lambda>w. let file_path = os_path_join log_dir file in
              if os_path_exists w file_path
              then seq (shutil_copy file_path (os_path_join support_dir file))
                       (status_message (''Copied '' @ file) True) w
              else ret () w)
         (copy_files log_dir files)"

text \<open>Lines 138 to 143: the newest rotated log.\<close>

definition copy_newest_log :: "string \<Rightarrow> unit action" where
  "copy_newest_log log_dir =
     bind (get_newest_log log_dir ''klippy.log'') (\<lambda>newest_log.
       case newest_log of
         Some name \<Rightarrow>
           if name \<noteq> []
           then seq (shutil_copy (os_path_join log_dir name) (os_path_join support_dir name))
                    (status_message (''Copied last rolled-over log: '' @ name) True)
           else status_message ''No archived klippy log found.'' True
       | None \<Rightarrow> status_message ''No archived klippy log found.'' True)"

definition copy_selective_logs :: "string \<Rightarrow> unit action" where
  "copy_selective_logs log_file_path =
     seq (step_message ''Copying selective logs'')
    (seq (if py_in marker log_file_path
          then (let log_dir = os_path_dirname log_file_path in
                seq (copy_files log_dir [''klippy.log'', ''moonraker.log''])
                    (copy_newest_log log_dir))
          else shutil_copy log_file_path (os_path_join support_dir ''klippy.log''))
         (status_message ''Selective logs copied'' True))"

text \<open>Lines 150 to 155.\<close>

definition copy_printer_cfg :: "string \<Rightarrow> unit action" where
  "copy_printer_cfg printer_cfg_path =
     seq (step_message ''Copying printer.cfg'')
    (seq (if py_in marker printer_cfg_path
          then shutil_copytree (os_path_dirname printer_cfg_path)
                 (os_path_join support_dir ''config'')
          else shutil_copy printer_cfg_path (os_path_join support_dir ''printer.cfg''))
         (status_message ''Printer.cfg copied'' True))"

text \<open>
  Lines 158 to 180: the three reports.  The child process writes to the file
  descriptor at once, while \<^verbatim>\<open>f.write\<close> fills the buffer of the file object, which
  reaches the file when the \<^verbatim>\<open>with\<close> block closes it, also when the block is left
  by an exception.
\<close>

definition append_text :: "string \<Rightarrow> string \<Rightarrow> unit action" where
  "append_text p s w =
     (case read_text w p of
        Inl e \<Rightarrow> (Inl e, w)
      | Inr old \<Rightarrow> write_data p (Text (old @ s)) w)"

definition collect_os_information :: "unit action" where
  "collect_os_information =
     seq (step_message ''Collecting OS information'')
    (let os_info_path = os_path_join support_dir ''OS_Information.txt'' in
     seq (write_data os_info_path (Text []))
    (bind (subprocess_run [''uname'', ''-a'']) (\<lambda>out1.
     seq (append_text os_info_path out1)
    (bind (on_error (subprocess_run [''cat'', ''/etc/os-release''])
                    (append_text os_info_path [CHR 0x0A])) (\<lambda>out2.
     seq (append_text os_info_path out2)
    (seq (\<lambda>w. append_text os_info_path
                ([CHR 0x0A] @ [CHR 0x0A] @ ''Platform: '' @ platform_platform w @ [CHR 0x0A]) w)
         (status_message ''OS information collected'' True)))))))"

definition collect_network_information :: "unit action" where
  "collect_network_information =
     seq (step_message ''Collecting network information'')
    (let network_info_path = os_path_join support_dir ''Network_Information.txt'' in
     seq (write_data network_info_path (Text []))
    (bind (subprocess_run [''ip'', ''-details'', ''-s'', ''link'', ''show'']) (\<lambda>out.
     seq (append_text network_info_path out)
         (status_message ''Network information collected'' True))))"

definition collect_dmesg_information :: "unit action" where
  "collect_dmesg_information =
     seq (step_message ''Collecting dmesg information'')
    (let dmesg_path = os_path_join support_dir ''dmesg.txt'' in
     seq (write_data dmesg_path (Text []))
    (bind (subprocess_run [''sudo'', ''dmesg'']) (\<lambda>out.
     seq (append_text dmesg_path out)
         (status_message ''dmesg information collected'' True))))"

text \<open>Lines 183 to 193: the two nested loops over \<^verbatim>\<open>os.walk(support_dir)\<close>.\<close>

fun zip_files :: "string \<Rightarrow> string list \<Rightarrow> unit action" where
  "zip_files dir_path [] = ret ()"
| "zip_files dir_path (file # files) =
     (let abs_path = os_path_join dir_path file in
      bind (\<lambda>w. ret (os_path_relpath w abs_path support_dir) w) (\<lambda>arcname.
      bind time_strftime (\<lambda>timestamp.
      seq (zipfile_write zip_path abs_path (arcname @ ''_'' @ timestamp))
          (zip_files dir_path files))))"

fun zip_walk :: "(string \<times> string list \<times> string list) list \<Rightarrow> unit action" where
  "zip_walk [] = ret ()"
| "zip_walk ((dir_path, dirs, files) # rest) = seq (zip_files dir_path files) (zip_walk rest)"

definition compress_support_folder :: "unit action" where
  "compress_support_folder =
     seq (step_message ''Compressing support folder'')
    (seq (zipfile_open zip_path)
    (seq (\<lambda>w. zip_walk (os_walk w support_dir) w)
         (status_message ''Support folder compressed'' True)))"

text \<open>Lines 196 to 205.\<close>

definition final_message :: "string \<Rightarrow> unit action" where
  "final_message base_path =
     bind time_strftime (\<lambda>timestamp.
       if py_in marker base_path
       then (let final_path = os_path_join (os_path_join base_path ''logs'')
                                (''klipper_support_'' @ timestamp @ ''.zip'') in
             seq (shutil_copy zip_path final_path)
            (seq (print (BOLD @ OKGREEN @ ''Support ZIP created: '' @ final_path @ ENDC))
                 (print (BOLD @ WARNING
                    @ ''Get the file in the logs section of the webinterface. Refresh might be needed!''
                    @ ENDC))))
       else (let final_path = ''/tmp/klipper_support_'' @ timestamp @ ''.zip'' in
             seq (shutil_copy zip_path final_path)
                 (print (BOLD @ OKGREEN @ ''Support ZIP created: '' @ final_path @ ENDC))))"

text \<open>The body of the \<^verbatim>\<open>try\<close> block, in three parts, and \<^verbatim>\<open>main\<close>.\<close>

definition locator :: "(string \<times> string) action" where
  "locator =
     seq check_service
    (bind read_service (\<lambda>environment_file_path.
     seq (check_environment_file environment_file_path)
         (read_environment_file environment_file_path)))"

definition collector :: "string \<Rightarrow> string \<Rightarrow> string action" where
  "collector printer_cfg_path log_file_path =
     bind (determine_base_path ''printer.cfg'' ''Printer config path: '' printer_cfg_path)
       (\<lambda>base_path.
     bind (determine_base_path ''log file'' ''Log file path: '' log_file_path)
       (\<lambda>base_path_log.
     seq prepare_support_dir
    (seq (copy_selective_logs log_file_path)
    (seq (copy_printer_cfg printer_cfg_path)
    (seq collect_os_information
    (seq collect_network_information
    (seq collect_dmesg_information
         (ret base_path))))))))"

definition packager :: "string \<Rightarrow> unit action" where
  "packager base_path = seq compress_support_folder (final_message base_path)"

definition main_body :: "unit action" where
  "main_body =
     bind locator (\<lambda>(printer_cfg_path, log_file_path).
     bind (collector printer_cfg_path log_file_path) packager)"

definition main :: "world \<Rightarrow> world" where
  "main w =
     (case main_body w of
        (Inl e, w') \<Rightarrow> snd (status_message (str_of e) False w')
      | (Inr u, w') \<Rightarrow> w')"

text \<open>
  Running the script: \<^verbatim>\<open>main()\<close> returns, the interpreter ends, and the exit
  status of the process is 0.
\<close>

definition run_script :: "world \<Rightarrow> world \<times> int" where
  "run_script w = (main w, 0)"

section \<open>An example host\<close>

text \<open>
  A Raspberry Pi installation as Klipper's installer lays it out, with the text of
  the environment file, the entries of the log directory and the behaviour of the
  external commands left open.  The theorems below are applied to it.
\<close>

definition example_service :: string where
  "example_service =
     ''[Unit]'' @ [CHR 0x0A] @ ''Description=Klipper'' @ [CHR 0x0A] @ ''[Service]'' @ [CHR 0x0A]
       @ ''EnvironmentFile=/home/pi/printer_data/systemd/klipper.env'' @ [CHR 0x0A]"

definition example_env :: string where
  "example_env =
     ''KLIPPER_ARGS='' @ [CHR 0x22]
       @ ''/home/pi/klipper/klippy/klippy.py /home/pi/printer_data/config/printer.cfg -I /home/pi/printer_data/comms/klippy.serial -l /home/pi/printer_data/logs/klippy.log -a /home/pi/printer_data/comms/klippy.sock''
       @ [CHR 0x22, CHR 0x0A]"

definition example_fs :: "string \<Rightarrow> (string \<times> node) list \<Rightarrow> node" where
  "example_fs env_text logs =
     Dir [(''etc'', Dir [(''systemd'', Dir [(''system'', Dir
            [(''klipper.service'', File (Text example_service))])])]),
          (''home'', Dir [(''pi'', Dir [(''printer_data'', Dir
            [(''systemd'', Dir [(''klipper.env'', File (Text env_text))]),
             (''config'', Dir [(''printer.cfg'', File (Text ''[printer]'')),
                               (''macros'', Dir [(''start.cfg'', File (Text ''[gcode_macro]''))])]),
             (''logs'', Dir logs)])])]),
          (''tmp'', Dir [(''klipper_support'', Dir [(''stale.txt'', File (Text ''old run''))])])]"

definition example_clock :: "nat \<Rightarrow> tm" where
  "example_clock n =
     \<lparr>tm_year = 2024, tm_mon = 5, tm_mday = 17, tm_hour = 10, tm_min = 30, tm_sec = n mod 60\<rparr>"

definition example_host ::
  "string \<Rightarrow> (string \<times> node) list \<Rightarrow> (string list \<Rightarrow> process) \<Rightarrow> world" where
  "example_host env_text logs cmds =
     \<lparr>fs = example_fs env_text logs, cwd = [''home'', ''pi''], console = [],
      clock = example_clock, ticks = 0, commands = cmds,
      platform_platform = ''Linux-6.1.21-v8+-aarch64-with-glibc2.31''\<rparr>"

text \<open>Every command starts; each prints its own name and exits with status 1.\<close>

definition all_start :: "string list \<Rightarrow> process" where
  "all_start argv = Exited 1 (concat argv @ [CHR 0x0A])"

text \<open>The same, but \<^verbatim>\<open>ip\<close> is not installed.\<close>

definition ip_missing :: "string list \<Rightarrow> process" where
  "ip_missing argv = (case argv of [] \<Rightarrow> NotFound | a # x \<Rightarrow> if a = ''ip'' then NotFound else all_start argv)"

section \<open>Properties of the string primitives\<close>

lemma py_find_occurrence: "py_find sub s = Some i \<Longrightarrow> take (length sub) (drop i s) = sub"
proof (induction s arbitrary: i)
  case Nil
  then show ?case by (simp split: if_splits)
next
  case (Cons c cs)
  show ?case
  proof (cases "prefix sub (c # cs)")
    case True
    then obtain r where "c # cs = sub @ r" by (auto simp: prefix_def)
    moreover from True Cons.prems have "i = 0" by simp
    ultimately show ?thesis by simp
  next
    case False
    with Cons.prems obtain j where j: "py_find sub cs = Some j" "i = Suc j" by auto
    from Cons.IH [OF j(1)] j(2) show ?thesis by simp
  qed
qed

lemma py_find_take_eq:
  assumes "py_find sub s = Some i"
  shows "take (i + length sub) s = take i s @ sub"
proof -
  have "take (i + length sub) s = take i s @ take (length sub) (drop i s)"
    by (simp add: take_add)
  with py_find_occurrence [OF assms] show ?thesis by simp
qed

lemma py_find_prefix: "prefix sub s \<Longrightarrow> py_find sub s = Some 0"
  by (cases s) simp_all

lemma py_find_stable:
  "py_find sub s = Some i \<Longrightarrow> py_find sub (take (i + length sub) s @ t) = Some i"
proof (induction s arbitrary: i)
  case Nil
  then show ?case by (simp add: py_find_prefix split: if_splits)
next
  case (Cons c cs)
  show ?case
  proof (cases "prefix sub (c # cs)")
    case True
    then obtain r where r: "c # cs = sub @ r" by (auto simp: prefix_def)
    from True Cons.prems have i: "i = 0" by simp
    from r have "take (length sub) (c # cs) = sub" by simp
    with i have "take (i + length sub) (c # cs) @ t = sub @ t" by simp
    moreover have "py_find sub (sub @ t) = Some 0"
      by (rule py_find_prefix) simp
    ultimately show ?thesis using i by simp
  next
    case False
    with Cons.prems obtain j where j: "py_find sub cs = Some j" "i = Suc j" by auto
    let ?u = "take (j + length sub) cs"
    have len: "length sub \<le> length (c # ?u)"
      using py_find_bound [OF j(1)] by simp
    have "\<not> prefix sub (c # ?u @ t)"
    proof
      assume "prefix sub (c # ?u @ t)"
      then have "prefix sub ((c # ?u) @ t)" by simp
      with len have "prefix sub (c # ?u)"
        by (metis prefix_length_prefix prefixI)
      moreover have "prefix (c # ?u) (c # cs)" by (simp add: take_is_prefix)
      ultimately have "prefix sub (c # cs)" by (rule prefix_order.trans)
      with False show False by simp
    qed
    with Cons.IH [OF j(1)] j(2) show ?thesis by simp
  qed
qed

lemma py_split_head:
  assumes "sep \<noteq> []" and "py_find sep s = Some i"
  shows "py_index (py_split sep s) 0 = Inr (take i s)"
  using assms by (subst py_split.simps) (simp add: py_index_def)

section \<open>Claim C3: base-path derivation is idempotent\<close>

lemma derive_base_marker:
  assumes "py_find marker p = Some i"
  shows "derive_base p = Inr (take i p @ marker @ ''/'')"
proof -
  have "marker \<noteq> []" by (simp add: marker_def)
  from py_split_head [OF this assms] assms show ?thesis
    by (simp add: derive_base_def py_in_def)
qed

text \<open>
  Claim C3.  For every path string \<open>p\<close> the derivation returns a value (it never
  raises), and deriving again from that value returns the same value:
  \<open>derive(derive(p)) = derive(p)\<close>.
\<close>

theorem derive_base_idempotent:
  "\<exists>r. derive_base p = Inr r \<and> derive_base r = Inr r"
proof (cases "py_find marker p")
  case None
  then have "derive_base p = Inr p" by (simp add: derive_base_def py_in_def)
  then show ?thesis by simp
next
  case (Some i)
  let ?r = "take i p @ marker @ ''/''"
  have r: "derive_base p = Inr ?r" by (rule derive_base_marker [OF Some])
  have "py_find marker (take (i + length marker) p @ ''/'') = Some i"
    by (rule py_find_stable [OF Some])
  then have f: "py_find marker ?r = Some i"
    by (simp add: py_find_take_eq [OF Some])
  have "i \<le> length p" using py_find_bound [OF Some] by simp
  then have "take i ?r = take i p" by simp
  with derive_base_marker [OF f] have "derive_base ?r = Inr ?r" by simp
  with r show ?thesis by simp
qed

section \<open>Properties of get\_newest\_log\<close>

lemma compute_keys_Inr:
  "compute_keys rest = Inr ks \<Longrightarrow> map snd ks = rest \<and> (\<forall>(k, f) \<in> set ks. sort_key_of f = Inr k)"
proof (induction rest arbitrary: ks)
  case Nil
  then show ?case by simp
next
  case (Cons f rest)
  from Cons.prems obtain k ks' where k: "sort_key_of f = Inr k"
    and r: "compute_keys rest = Inr ks'" and ks: "ks = (k, f) # ks'"
    by (auto split: sum.splits)
  from Cons.IH [OF r] k ks show ?case by simp
qed

lemma compute_keys_total:
  "(\<forall>f \<in> set rest. \<not> isl (sort_key_of f)) \<Longrightarrow> \<exists>ks. compute_keys rest = Inr ks"
proof (induction rest)
  case Nil
  then show ?case by simp
next
  case (Cons f rest)
  then obtain ks where "compute_keys rest = Inr ks" by auto
  moreover from Cons.prems obtain k where "sort_key_of f = Inr k"
    by (cases "sort_key_of f") auto
  ultimately show ?case by simp
qed

lemma compute_keys_fails:
  "f \<in> set rest \<Longrightarrow> isl (sort_key_of f) \<Longrightarrow> \<exists>e. compute_keys rest = Inl e"
proof (induction rest)
  case Nil
  then show ?case by simp
next
  case (Cons g rest)
  show ?case
  proof (cases "sort_key_of g")
    case (Inl e)
    then show ?thesis by simp
  next
    case (Inr k)
    with Cons.prems have "f \<in> set rest" by auto
    from Cons.IH [OF this Cons.prems(2)] obtain e where "compute_keys rest = Inl e" ..
    with Inr show ?thesis by simp
  qed
qed

lemma sorted_le_last:
  fixes xs :: "('a :: linorder) list"
  assumes "sorted xs" and "x \<in> set xs"
  shows "x \<le> last xs"
proof -
  from assms(2) have ne: "xs \<noteq> []" by auto
  then have eq: "xs = butlast xs @ [last xs]" by simp
  with assms(1) have "sorted (butlast xs @ [last xs])" by simp
  then have "\<forall>y \<in> set (butlast xs). y \<le> last xs" by (simp add: sorted_append)
  moreover from assms(2) eq have "x \<in> set (butlast xs) \<or> x = last xs"
    by (metis Un_iff empty_iff empty_set insert_iff list.simps(15) set_append)
  ultimately show ?thesis by auto
qed

lemma sort_reverse_head:
  assumes "ks \<noteq> []"
  shows "\<exists>k f. py_index (sort_reverse ks) 0 = Inr f \<and> (k, f) \<in> set ks
           \<and> (\<forall>x \<in> set ks. fst x \<le> k)"
proof -
  let ?xs = "sort_key fst (rev ks)"
  have set_xs: "set ?xs = set ks" by simp
  with assms have ne: "?xs \<noteq> []" by (metis set_empty)
  have srt: "sorted (map fst ?xs)" by (rule sorted_sort_key)
  have mx: "fst x \<le> fst (last ?xs)" if "x \<in> set ks" for x
  proof -
    from that set_xs have "fst x \<in> set (map fst ?xs)" by (metis image_eqI set_map)
    from sorted_le_last [OF srt this] ne show ?thesis by (simp add: last_map)
  qed
  have "sort_reverse ks \<noteq> []" using ne by (simp add: sort_reverse_def)
  moreover have "hd (sort_reverse ks) = snd (last ?xs)"
    using ne by (simp add: sort_reverse_def hd_map hd_rev)
  ultimately have "py_index (sort_reverse ks) 0 = Inr (snd (last ?xs))"
    by (simp add: py_index_def hd_conv_nth)
  moreover have "(fst (last ?xs), snd (last ?xs)) \<in> set ks"
    using last_in_set [OF ne] set_xs by simp
  ultimately show ?thesis using mx by blast
qed


lemma newest_of_no_match:
  "log_files_of all_files p = [] \<Longrightarrow> newest_of all_files p = ([], Inr None)"
  by (simp add: newest_of_def)

lemma newest_of_max_key:
  assumes ne: "log_files_of all_files p \<noteq> []"
    and ok: "\<forall>f \<in> set (log_files_of all_files p). \<not> isl (sort_key_of f)"
  shows "\<exists>f k. newest_of all_files p = ([], Inr (Some f))
           \<and> f \<in> set (log_files_of all_files p)
           \<and> sort_key_of f = Inr k
           \<and> (\<forall>g \<in> set (log_files_of all_files p).
                 \<forall>j. sort_key_of g = Inr j \<longrightarrow> j \<le> k)"
proof -
  let ?lf = "log_files_of all_files p"
  from ok obtain ks where ks: "compute_keys ?lf = Inr ks"
    using compute_keys_total by blast
  from compute_keys_Inr [OF ks]
  have snd_ks: "map snd ks = ?lf"
    and key_ks: "\<And>k f. (k, f) \<in> set ks \<Longrightarrow> sort_key_of f = Inr k"
    by auto
  from snd_ks ne have "ks \<noteq> []" by auto
  from sort_reverse_head [OF this] obtain k f
    where first: "py_index (sort_reverse ks) 0 = Inr f"
      and mem: "(k, f) \<in> set ks"
      and mx: "\<forall>x \<in> set ks. fst x \<le> k"
    by blast
  from ne ks first have res: "newest_of all_files p = ([], Inr (Some f))"
    by (simp add: newest_of_def)
  from mem have "snd (k, f) \<in> set (map snd ks)" by (metis image_eqI set_map)
  with snd_ks have f_in: "f \<in> set ?lf" by simp
  have le: "j \<le> k" if g: "g \<in> set ?lf" and j: "sort_key_of g = Inr j" for g j
  proof -
    from g snd_ks have "g \<in> snd ` set ks" by (metis set_map)
    then obtain j' where m: "(j', g) \<in> set ks" by auto
    from key_ks [OF m] j have "j' = j" by simp
    with mx m show ?thesis by auto
  qed
  from res f_in key_ks [OF mem] le show ?thesis by blast
qed


lemma re_match_ones:
  "re_match (map One atoms) s
     \<longleftrightarrow> list_all2 rx_accepts atoms s
         \<or> (\<exists>t. s = t @ [CHR 0x0A] \<and> list_all2 rx_accepts atoms t)"
proof (induction atoms arbitrary: s)
  case Nil
  then show ?case by auto
next
  case (Cons a atoms)
  show ?case
  proof (cases s)
    case Nil
    then show ?thesis by simp
  next
    case (Cons c cs)
    have "(\<exists>t. c # cs = t @ [CHR 0x0A] \<and> list_all2 rx_accepts (a # atoms) t)
        \<longleftrightarrow> rx_accepts a c \<and> (\<exists>t. cs = t @ [CHR 0x0A] \<and> list_all2 rx_accepts atoms t)"
      by (auto simp: list_all2_Cons1 Cons_eq_append_conv)
    with Cons Cons.IH [of cs] show ?thesis by auto
  qed
qed

lemma re_match_star_dot:
  "re_match (Star Dot # ps) s
     \<longleftrightarrow> (\<exists>a r. s = a @ r \<and> CHR 0x0A \<notin> set a \<and> re_match ps r)"
proof (induction s)
  case Nil
  then show ?case by simp
next
  case (Cons c cs)
  show ?case
  proof
    assume "re_match (Star Dot # ps) (c # cs)"
    then consider "c \<noteq> CHR 0x0A" "re_match (Star Dot # ps) cs" | "re_match ps (c # cs)"
      by auto
    then show "\<exists>a r. c # cs = a @ r \<and> CHR 0x0A \<notin> set a \<and> re_match ps r"
    proof cases
      case 1
      with Cons.IH obtain a r where "cs = a @ r" "CHR 0x0A \<notin> set a" "re_match ps r"
        by auto
      with 1(1) have "c # cs = (c # a) @ r \<and> CHR 0x0A \<notin> set (c # a) \<and> re_match ps r"
        by auto
      then show ?thesis by blast
    next
      case 2
      then have "c # cs = [] @ (c # cs) \<and> CHR 0x0A \<notin> set [] \<and> re_match ps (c # cs)"
        by simp
      then show ?thesis by blast
    qed
  next
    assume "\<exists>a r. c # cs = a @ r \<and> CHR 0x0A \<notin> set a \<and> re_match ps r"
    then obtain a r where eq: "c # cs = a @ r" and a: "CHR 0x0A \<notin> set a"
      and r: "re_match ps r" by blast
    show "re_match (Star Dot # ps) (c # cs)"
    proof (cases a)
      case Nil
      with eq have "r = c # cs" by simp
      with r have "re_match ps (c # cs)" by simp
      then show ?thesis by simp
    next
      case (Cons x xs)
      with eq a have "c \<noteq> CHR 0x0A" and "cs = xs @ r" and "CHR 0x0A \<notin> set xs" by auto
      with r Cons.IH show ?thesis by auto
    qed
  qed
qed

lemma rotation_pattern_atoms: "rotation_pattern = Star Dot # map One rotation_atoms"
  by (simp add: rotation_pattern_def rotation_atoms_def)

lemma rotation_atoms_accept:
  "list_all2 rx_accepts rotation_atoms r
     \<longleftrightarrow> length r = 15 \<and> take 5 r = ''.log.'' \<and> date_shape (drop 5 r)"
proof
  assume "list_all2 rx_accepts rotation_atoms r"
  then show "length r = 15 \<and> take 5 r = ''.log.'' \<and> date_shape (drop 5 r)"
    by (auto simp: rotation_atoms_def date_shape_def list_all2_Cons1 eval_nat_numeral)
next
  assume h: "length r = 15 \<and> take 5 r = ''.log.'' \<and> date_shape (drop 5 r)"
  then obtain c1 c2 c3 c4 c5 c6 c7 c8 c9 c10 c11 c12 c13 c14 c15
    where r: "r = [c1, c2, c3, c4, c5, c6, c7, c8, c9, c10, c11, c12, c13, c14, c15]"
    by (auto simp: length_Suc_conv eval_nat_numeral)
  with h show "list_all2 rx_accepts rotation_atoms r"
    by (simp add: rotation_atoms_def date_shape_def eval_nat_numeral)
qed

lemma rotation_form_append:
  assumes "length r = 15"
  shows "rotation_form (a @ r)
     \<longleftrightarrow> CHR 0x0A \<notin> set a \<and> take 5 r = ''.log.'' \<and> date_shape (drop 5 r)"
proof -
  have "length (a @ r) - 10 = length a + 5" using assms by simp
  then have "date_suffix (a @ r) = drop 5 r" by (simp add: date_suffix_def)
  then show ?thesis using assms by (simp add: rotation_form_def)
qed

lemma re_match_rotation:
  "re_match rotation_pattern f
     \<longleftrightarrow> rotation_form f \<or> (f \<noteq> [] \<and> last f = CHR 0x0A \<and> rotation_form (butlast f))"
proof
  assume "re_match rotation_pattern f"
  then obtain a r where f: "f = a @ r" and a: "CHR 0x0A \<notin> set a"
    and r: "list_all2 rx_accepts rotation_atoms r
       \<or> (\<exists>t. r = t @ [CHR 0x0A] \<and> list_all2 rx_accepts rotation_atoms t)"
    unfolding rotation_pattern_atoms re_match_star_dot re_match_ones by blast
  from r show "rotation_form f \<or> (f \<noteq> [] \<and> last f = CHR 0x0A \<and> rotation_form (butlast f))"
  proof
    assume "list_all2 rx_accepts rotation_atoms r"
    then have "length r = 15 \<and> take 5 r = ''.log.'' \<and> date_shape (drop 5 r)"
      by (simp only: rotation_atoms_accept)
    with a f have "rotation_form f" by (simp add: rotation_form_append)
    then show ?thesis ..
  next
    assume "\<exists>t. r = t @ [CHR 0x0A] \<and> list_all2 rx_accepts rotation_atoms t"
    then obtain t where t: "r = t @ [CHR 0x0A]" and acc: "list_all2 rx_accepts rotation_atoms t"
      by blast
    from acc have "length t = 15 \<and> take 5 t = ''.log.'' \<and> date_shape (drop 5 t)"
      by (simp only: rotation_atoms_accept)
    with a have "rotation_form (a @ t)" by (simp add: rotation_form_append)
    moreover from f t have "f = (a @ t) @ [CHR 0x0A]" by simp
    ultimately have "f \<noteq> [] \<and> last f = CHR 0x0A \<and> rotation_form (butlast f)"
      by (simp add: butlast_append)
    then show ?thesis ..
  qed
next
  have form: "re_match rotation_pattern (g @ e)"
    if g: "rotation_form g" and e: "e = [] \<or> e = [CHR 0x0A]" for g e
  proof -
    let ?a = "take (length g - 15) g" and ?r = "drop (length g - 15) g"
    from g have len: "15 \<le> length g" by (simp add: rotation_form_def)
    then have lr: "length ?r = 15" by simp
    have "rotation_form (?a @ ?r)" using g by simp
    with rotation_form_append [OF lr, of ?a]
    have parts: "CHR 0x0A \<notin> set ?a \<and> take 5 ?r = ''.log.'' \<and> date_shape (drop 5 ?r)"
      by blast
    then have a: "CHR 0x0A \<notin> set ?a" by blast
    from parts lr rotation_atoms_accept [of ?r]
    have acc: "list_all2 rx_accepts rotation_atoms ?r" by blast
    from acc e have "re_match (map One rotation_atoms) (?r @ e)"
      unfolding re_match_ones by auto
    with a have "\<exists>a r. g @ e = a @ r \<and> CHR 0x0A \<notin> set a
        \<and> re_match (map One rotation_atoms) r"
      by (intro exI [of _ ?a] exI [of _ "?r @ e"]) simp
    then show ?thesis unfolding rotation_pattern_atoms re_match_star_dot .
  qed
  assume "rotation_form f \<or> (f \<noteq> [] \<and> last f = CHR 0x0A \<and> rotation_form (butlast f))"
  then show "re_match rotation_pattern f"
  proof
    assume "rotation_form f"
    from form [OF this, of "[]"] show ?thesis by simp
  next
    assume h: "f \<noteq> [] \<and> last f = CHR 0x0A \<and> rotation_form (butlast f)"
    then have "f = butlast f @ [CHR 0x0A]" by (metis append_butlast_last_id)
    with form [of "butlast f" "[CHR 0x0A]"] h show ?thesis by simp
  qed
qed

lemma py_find_absent_char:
  "c \<in> set sub \<Longrightarrow> c \<notin> set s \<Longrightarrow> py_find sub s = None"
proof (induction s)
  case Nil
  then show ?case by auto
next
  case (Cons x xs)
  have "\<not> prefix sub (x # xs)"
  proof
    assume "prefix sub (x # xs)"
    then have "set sub \<subseteq> set (x # xs)" by (rule set_mono_prefix)
    with Cons.prems show False by auto
  qed
  with Cons show ?case by simp
qed

lemma digit_not_l: "is_digit c \<Longrightarrow> c \<noteq> CHR ''l''"
  by (auto simp: is_digit_def)

lemma date_shape_no_l: "date_shape d \<Longrightarrow> CHR ''l'' \<notin> set d"
  by (auto simp: date_shape_def list_all2_Cons1 dest: digit_not_l)

lemma sort_key_of_rotation:
  assumes form: "rotation_form f" and first: "py_find ''.log.'' f = Some (length f - 15)"
  shows "sort_key_of f = strptime (date_suffix f)"
proof -
  from form have len: "15 \<le> length f" and shape: "date_shape (date_suffix f)"
    by (simp_all add: rotation_form_def)
  from len have "length f - 15 + length ''.log.'' = length f - 10" by simp
  then have rest: "drop (length f - 15 + length ''.log.'') f = date_suffix f"
    by (simp only: date_suffix_def)
  have "py_find ''.log.'' (date_suffix f) = None"
    by (rule py_find_absent_char [OF _ date_shape_no_l [OF shape]]) simp
  then have one: "py_split ''.log.'' (date_suffix f) = [date_suffix f]"
    by (subst py_split.simps) simp
  have "py_split ''.log.'' f = take (length f - 15) f # py_split ''.log.'' (date_suffix f)"
    by (subst py_split.simps) (simp only: first rest option.case list.simps if_False)
  with one show ?thesis by (simp add: sort_key_of_def py_index_def)
qed

text \<open>
  Claim C4, as amended.  Take a listing that holds at least one rotation name
  starting with the prefix, and in which every name that starts with the prefix and
  passes the pattern (a rotation name, or a rotation name followed by one line
  feed) is a rotation name without that line feed, holds \<^verbatim>\<open>.log.\<close> nowhere before
  the \<^verbatim>\<open>.log.\<close> in front of its date, and carries a date that \<^verbatim>\<open>strptime\<close>
  accepts.  Then the selection returns one name of the listing, a rotation name
  starting with the prefix, whose date suffix is greater than or equal to the date
  suffix of every rotation name of the listing that starts with the prefix; it
  prints nothing.  For the listing klippy.log.2024-01-01, klippy.log.2024-03-15,
  klippy.log.2023-12-31 it returns klippy.log.2024-03-15.
\<close>

theorem newest_of_most_recent:
  "((\<exists>f \<in> set all_files. startswith f p \<and> rotation_form f)
      \<and> (\<forall>f \<in> set all_files.
            startswith f p
              \<and> (rotation_form f \<or> (f \<noteq> [] \<and> last f = CHR 0x0A \<and> rotation_form (butlast f)))
            \<longrightarrow> rotation_form f \<and> py_find ''.log.'' f = Some (length f - 15)
                  \<and> \<not> isl (strptime (date_suffix f)))
    \<longrightarrow> (\<exists>f k. newest_of all_files p = ([], Inr (Some f))
            \<and> f \<in> set all_files \<and> startswith f p \<and> rotation_form f
            \<and> strptime (date_suffix f) = Inr k
            \<and> (\<forall>g \<in> set all_files. \<forall>j.
                  startswith g p \<and> rotation_form g \<and> strptime (date_suffix g) = Inr j
                  \<longrightarrow> j \<le> k)))
   \<and> newest_of [''klippy.log.2024-01-01'', ''klippy.log.2024-03-15'', ''klippy.log.2023-12-31'']
         ''klippy.log''
       = ([], Inr (Some ''klippy.log.2024-03-15''))"
proof (rule conjI, rule impI)
  let ?lf = "log_files_of all_files p"
  assume h: "(\<exists>f \<in> set all_files. startswith f p \<and> rotation_form f)
      \<and> (\<forall>f \<in> set all_files.
            startswith f p
              \<and> (rotation_form f \<or> (f \<noteq> [] \<and> last f = CHR 0x0A \<and> rotation_form (butlast f)))
            \<longrightarrow> rotation_form f \<and> py_find ''.log.'' f = Some (length f - 15)
                  \<and> \<not> isl (strptime (date_suffix f)))"
  have lf_iff: "f \<in> set ?lf \<longleftrightarrow> f \<in> set all_files \<and> startswith f p
      \<and> (rotation_form f \<or> (f \<noteq> [] \<and> last f = CHR 0x0A \<and> rotation_form (butlast f)))" for f
    by (simp add: log_files_of_def re_match_rotation)
  have clean: "rotation_form f \<and> sort_key_of f = strptime (date_suffix f)
      \<and> \<not> isl (strptime (date_suffix f))" if "f \<in> set ?lf" for f
  proof -
    from that h lf_iff [of f]
    have c: "rotation_form f \<and> py_find ''.log.'' f = Some (length f - 15)
        \<and> \<not> isl (strptime (date_suffix f))" by blast
    with sort_key_of_rotation [of f] show ?thesis by simp
  qed
  from h obtain f0 where "f0 \<in> set all_files" "startswith f0 p" "rotation_form f0" by blast
  with lf_iff [of f0] have "f0 \<in> set ?lf" by blast
  then have ne: "?lf \<noteq> []" by auto
  from clean have ok: "\<forall>f \<in> set ?lf. \<not> isl (sort_key_of f)" by simp
  from newest_of_max_key [OF ne ok] obtain f k
    where res: "newest_of all_files p = ([], Inr (Some f))"
      and mem: "f \<in> set ?lf"
      and key: "sort_key_of f = Inr k"
      and mx: "\<forall>g \<in> set ?lf. \<forall>j. sort_key_of g = Inr j \<longrightarrow> j \<le> k"
    by blast
  from mem lf_iff [of f] have f1: "f \<in> set all_files \<and> startswith f p" by blast
  from clean [OF mem] key have f2: "rotation_form f \<and> strptime (date_suffix f) = Inr k"
    by simp
  have le: "j \<le> k"
    if g: "g \<in> set all_files" "startswith g p" "rotation_form g"
      and j: "strptime (date_suffix g) = Inr j" for g j
  proof -
    from g lf_iff [of g] have m: "g \<in> set ?lf" by blast
    from clean [OF m] j have "sort_key_of g = Inr j" by simp
    with mx m show ?thesis by blast
  qed
  from res f1 f2 le
  show "\<exists>f k. newest_of all_files p = ([], Inr (Some f))
            \<and> f \<in> set all_files \<and> startswith f p \<and> rotation_form f
            \<and> strptime (date_suffix f) = Inr k
            \<and> (\<forall>g \<in> set all_files. \<forall>j.
                  startswith g p \<and> rotation_form g \<and> strptime (date_suffix g) = Inr j
                  \<longrightarrow> j \<le> k)"
    by blast
next
  show "newest_of [''klippy.log.2024-01-01'', ''klippy.log.2024-03-15'', ''klippy.log.2023-12-31'']
          ''klippy.log''
        = ([], Inr (Some ''klippy.log.2024-03-15''))"
    by code_simp
qed

theorem newest_of_most_recent_witness:
  "\<exists>f. newest_of [''klippy.log'', ''klippy.log.2024-03-15'', ''notes.txt'',
                   ''moonraker.log.2025-01-01'', ''klippy.log.2024-02-29'']
          ''klippy.log'' = ([], Inr (Some f))
       \<and> strptime (date_suffix f) = Inr (2024, 3, 15)"
proof -
  let ?L = "[''klippy.log'', ''klippy.log.2024-03-15'', ''notes.txt'',
             ''moonraker.log.2025-01-01'', ''klippy.log.2024-02-29'']"
  let ?p = "''klippy.log''"
  have some: "\<exists>f \<in> set ?L. startswith f ?p \<and> rotation_form f"
    by code_simp
  have clean: "\<forall>f \<in> set ?L.
            startswith f ?p
              \<and> (rotation_form f \<or> (f \<noteq> [] \<and> last f = CHR 0x0A \<and> rotation_form (butlast f)))
            \<longrightarrow> rotation_form f \<and> py_find ''.log.'' f = Some (length f - 15)
                  \<and> \<not> isl (strptime (date_suffix f))"
    by code_simp
  have k1: "startswith ''klippy.log.2024-03-15'' ?p \<and> rotation_form ''klippy.log.2024-03-15''
      \<and> strptime (date_suffix ''klippy.log.2024-03-15'') = Inr (2024, 3, 15)"
    by code_simp
  have dates: "\<forall>f \<in> set ?L. startswith f ?p \<and> rotation_form f
      \<longrightarrow> strptime (date_suffix f) = Inr (2024, 3, 15) \<or> strptime (date_suffix f) = Inr (2024, 2, 29)"
    by code_simp
  from newest_of_most_recent [of ?L ?p] some clean
  obtain f k where r: "newest_of ?L ?p = ([], Inr (Some f))"
    and f: "f \<in> set ?L" "startswith f ?p" "rotation_form f"
    and k: "strptime (date_suffix f) = Inr k"
    and mx: "\<forall>g \<in> set ?L. \<forall>j.
          startswith g ?p \<and> rotation_form g \<and> strptime (date_suffix g) = Inr j \<longrightarrow> j \<le> k"
    by blast
  have "''klippy.log.2024-03-15'' \<in> set ?L" by simp
  from bspec [OF mx this] k1 have le: "(2024, 3, 15) \<le> k" by blast
  from bspec [OF dates f(1)] f(2,3) k
  have "k = (2024, 3, 15) \<or> k = (2024, 2, 29)" by simp
  moreover have "\<not> (2024, 3, 15) \<le> ((2024, 2, 29) :: date)" by simp
  ultimately have "k = (2024, 3, 15)" using le by blast
  with r k show ?thesis by blast
qed

text \<open>
  Claim C4 as stated, for every listing, fails.  Beside the valid rotation
  klippy.log.2024-01-01 the name klippy.log.2024-99-15 makes the selection return
  None; and klippy.log.2025-01-01.log.2020-01-01, whose date suffix 2020-01-01 is
  older than the suffix of klippy.log.2024-06-01, is returned as the newest, because
  the sort key is the piece after the first \<^verbatim>\<open>.log.\<close>, 2025-01-01.
\<close>

theorem newest_of_most_recent_counterexample:
  "strptime (date_suffix ''klippy.log.2024-01-01'') = Inr (2024, 1, 1)
   \<and> snd (newest_of [''klippy.log.2024-01-01'', ''klippy.log.2024-99-15''] ''klippy.log'')
       = Inr None
   \<and> strptime (date_suffix ''klippy.log.2024-06-01'') = Inr (2024, 6, 1)
   \<and> strptime (date_suffix ''klippy.log.2025-01-01.log.2020-01-01'') = Inr (2020, 1, 1)
   \<and> snd (newest_of [''klippy.log.2024-06-01'', ''klippy.log.2025-01-01.log.2020-01-01'']
            ''klippy.log'')
       = Inr (Some ''klippy.log.2025-01-01.log.2020-01-01'')"
proof -
  have a: "strptime (date_suffix ''klippy.log.2024-01-01'') = Inr (2024, 1, 1)" by code_simp
  have b: "snd (newest_of [''klippy.log.2024-01-01'', ''klippy.log.2024-99-15''] ''klippy.log'')
       = Inr None" by code_simp
  have c: "strptime (date_suffix ''klippy.log.2024-06-01'') = Inr (2024, 6, 1)" by code_simp
  have d: "strptime (date_suffix ''klippy.log.2025-01-01.log.2020-01-01'') = Inr (2020, 1, 1)"
    by code_simp
  have e: "snd (newest_of [''klippy.log.2024-06-01'', ''klippy.log.2025-01-01.log.2020-01-01'']
            ''klippy.log'')
       = Inr (Some ''klippy.log.2025-01-01.log.2020-01-01'')" by code_simp
  from a b c d e show ?thesis by blast
qed

text \<open>
  Claim C9, as amended.  When the listing holds a name that starts with the prefix
  and matches the rotation pattern, but the piece between its first \<^verbatim>\<open>.log.\<close> and
  the next \<^verbatim>\<open>.log.\<close> (the whole remainder when there is no second one), which is
  \<^verbatim>\<open>f.split('.log.')[1]\<close>, is not a date that \<^verbatim>\<open>strptime\<close> accepts, the selection
  returns None, whatever else the listing holds.
\<close>

theorem unparseable_rotation_suppresses_selection:
  assumes "f \<in> set all_files"
    and "startswith f p"
    and "re_match rotation_pattern f"
    and "py_index (py_split ''.log.'' f) 1 = Inr d"
    and "strptime d = Inl e"
  shows "snd (newest_of all_files p) = Inr None"
proof -
  from assms(1-3) have mem: "f \<in> set (log_files_of all_files p)"
    by (simp add: log_files_of_def)
  from assms(4,5) have "isl (sort_key_of f)" by (simp add: sort_key_of_def)
  from compute_keys_fails [OF mem this] obtain e' where
    "compute_keys (log_files_of all_files p) = Inl e'" ..
  moreover from mem have "log_files_of all_files p \<noteq> []" by auto
  ultimately show ?thesis by (simp add: newest_of_def)
qed

theorem unparseable_rotation_suppresses_selection_witness:
  "snd (newest_of [''klippy.log.2024-01-01'', ''klippy.log.2024-99-15''] ''klippy.log'') = Inr None
   \<and> sort_key_of ''klippy.log.2024-01-01'' = Inr (2024, 1, 1)
   \<and> snd (newest_of [''klippy.log.2024-01-01'', ''klippy.log.old.log.2024-03-15''] ''klippy.log'')
       = Inr None"
proof -
  have a: "snd (newest_of [''klippy.log.2024-01-01'', ''klippy.log.2024-99-15''] ''klippy.log'')
      = Inr None"
  proof (rule unparseable_rotation_suppresses_selection
      [where f = "''klippy.log.2024-99-15''" and d = "''2024-99-15''"
         and e = "no_match ''2024-99-15''"])
    show "''klippy.log.2024-99-15'' \<in> set [''klippy.log.2024-01-01'', ''klippy.log.2024-99-15'']"
      by simp
    show "startswith ''klippy.log.2024-99-15'' ''klippy.log''" by code_simp
    show "re_match rotation_pattern ''klippy.log.2024-99-15''" by code_simp
    show "py_index (py_split ''.log.'' ''klippy.log.2024-99-15'') 1 = Inr ''2024-99-15''"
      by code_simp
    show "strptime ''2024-99-15'' = Inl (no_match ''2024-99-15'')" by code_simp
  qed
  have b: "snd (newest_of [''klippy.log.2024-01-01'', ''klippy.log.old.log.2024-03-15'']
        ''klippy.log'') = Inr None"
  proof (rule unparseable_rotation_suppresses_selection
      [where f = "''klippy.log.old.log.2024-03-15''" and d = "''old''"
         and e = "no_match ''old''"])
    show "''klippy.log.old.log.2024-03-15''
        \<in> set [''klippy.log.2024-01-01'', ''klippy.log.old.log.2024-03-15'']"
      by simp
    show "startswith ''klippy.log.old.log.2024-03-15'' ''klippy.log''" by code_simp
    show "re_match rotation_pattern ''klippy.log.old.log.2024-03-15''" by code_simp
    show "py_index (py_split ''.log.'' ''klippy.log.old.log.2024-03-15'') 1 = Inr ''old''"
      by code_simp
    show "strptime ''old'' = Inl (no_match ''old'')" by code_simp
  qed
  have c: "sort_key_of ''klippy.log.2024-01-01'' = Inr (2024, 1, 1)" by code_simp
  from a b c show ?thesis by simp
qed

text \<open>
  Claim C9 as stated fails: in klippy.log.2025-01-01.log.2020-01-01 the portion
  after the first \<^verbatim>\<open>.log.\<close> is 2025-01-01.log.2020-01-01, which is not a date, yet
  the name is sorted by the piece 2025-01-01 and returned as the candidate.
\<close>

theorem unparseable_rotation_suppresses_selection_counterexample:
  "startswith ''klippy.log.2025-01-01.log.2020-01-01'' ''klippy.log''
   \<and> re_match rotation_pattern ''klippy.log.2025-01-01.log.2020-01-01''
   \<and> py_find ''.log.'' ''klippy.log.2025-01-01.log.2020-01-01'' = Some 6
   \<and> strptime (drop (6 + 5) ''klippy.log.2025-01-01.log.2020-01-01'')
       = Inl (ValueError ''unconverted data remains: .log.2020-01-01'')
   \<and> snd (newest_of [''klippy.log.2024-06-01'', ''klippy.log.2025-01-01.log.2020-01-01'']
            ''klippy.log'')
       = Inr (Some ''klippy.log.2025-01-01.log.2020-01-01'')"
proof -
  have a: "startswith ''klippy.log.2025-01-01.log.2020-01-01'' ''klippy.log''" by code_simp
  have b: "re_match rotation_pattern ''klippy.log.2025-01-01.log.2020-01-01''" by code_simp
  have c: "py_find ''.log.'' ''klippy.log.2025-01-01.log.2020-01-01'' = Some 6" by code_simp
  have d: "strptime (drop (6 + 5) ''klippy.log.2025-01-01.log.2020-01-01'')
       = Inl (ValueError ''unconverted data remains: .log.2020-01-01'')" by code_simp
  have e: "snd (newest_of [''klippy.log.2024-06-01'', ''klippy.log.2025-01-01.log.2020-01-01'']
            ''klippy.log'')
       = Inr (Some ''klippy.log.2025-01-01.log.2020-01-01'')" by code_simp
  from a b c d e show ?thesis by blast
qed

section \<open>Properties of the Locator\<close>

lemma py_find_char_none: "c \<notin> set s \<Longrightarrow> py_find [c] s = None"
  by (induction s) auto

lemma py_find_char_first: "c \<notin> set k \<Longrightarrow> py_find [c] (k @ c # r) = Some (length k)"
  by (induction k) auto

lemma py_split_char_none: "c \<notin> set s \<Longrightarrow> py_split [c] s = [s]"
  by (subst py_split.simps) (simp add: py_find_char_none)

lemma py_split_char_first:
  "c \<notin> set k \<Longrightarrow> py_split [c] (k @ c # r) = k # py_split [c] r"
  by (subst py_split.simps) (simp add: py_find_char_first)

lemma py_split_second:
  assumes "c \<notin> set k" and "c \<notin> set r"
  shows "py_index (py_split [c] (k @ c # r)) 1 = Inr r"
  using assms by (simp add: py_split_char_first py_split_char_none py_index_def)

lemma dropWhile_append_keep:
  "b \<noteq> [] \<Longrightarrow> \<not> P (hd b) \<Longrightarrow> dropWhile P (a @ b) = dropWhile P a @ b"
  by (induction a) (auto simp: dropWhile_eq_self_iff)

lemma py_strip_frame:
  assumes "x \<noteq> []" and "\<not> py_isspace (hd x)" and "\<not> py_isspace (last x)"
    and "\<forall>c \<in> set t. py_isspace c"
  shows "py_strip (a @ x @ t) = dropWhile py_isspace a @ x"
proof -
  let ?k = "dropWhile py_isspace a"
  have "dropWhile py_isspace (a @ (x @ t)) = ?k @ (x @ t)"
    using assms(1,2) by (intro dropWhile_append_keep) auto
  then have "py_strip (a @ x @ t)
      = rev (dropWhile py_isspace (rev t @ (rev x @ rev ?k)))"
    by (simp add: py_strip_def)
  also have "dropWhile py_isspace (rev t @ (rev x @ rev ?k))
      = dropWhile py_isspace (rev x @ rev ?k)"
    using assms(4) by (intro dropWhile_append2) simp
  also have "\<dots> = rev x @ rev ?k"
    using assms(1,3) by (cases "rev x") (auto simp: hd_rev dest: arg_cong [where f = hd])
  finally show ?thesis by simp
qed

lemma py_strip_leading:
  "\<forall>c \<in> set w. py_isspace c \<Longrightarrow> py_strip (w @ s) = py_strip s"
  by (simp add: py_strip_def dropWhile_append2)

lemma py_split_ws_leading:
  "\<forall>c \<in> set w. py_isspace c \<Longrightarrow> py_split_ws (w @ s) = py_split_ws s"
  by (subst py_split_ws.simps, subst (2) py_split_ws.simps) (simp add: dropWhile_append2)

lemma py_split_ws_glued:
  assumes "\<forall>c \<in> set g. \<not> py_isspace c" and "s \<noteq> []" and "\<not> py_isspace (hd s)"
  shows "\<exists>t rest. py_split_ws s = t # rest \<and> py_split_ws (g @ s) = (g @ t) # rest"
proof -
  let ?N = "\<lambda>x. \<not> py_isspace x"
  from assms(2,3) obtain c cs where s: "s = c # cs" and c: "\<not> py_isspace c"
    by (cases s) auto
  have a: "py_split_ws s = takeWhile ?N s # py_split_ws (dropWhile ?N cs)"
    using s c by (subst py_split_ws.simps) simp
  show ?thesis
  proof (cases g)
    case Nil
    with a show ?thesis by simp
  next
    case (Cons d ds)
    with assms(1) have d: "\<not> py_isspace d" and ds: "\<forall>x \<in> set ds. \<not> py_isspace x" by auto
    have "dropWhile py_isspace (g @ s) = d # (ds @ s)" using Cons d by simp
    then have "py_split_ws (g @ s)
        = takeWhile ?N (d # ds @ s) # py_split_ws (dropWhile ?N (ds @ s))"
      by (subst py_split_ws.simps) simp
    moreover have "takeWhile ?N (d # ds @ s) = g @ takeWhile ?N s"
      using Cons d ds by (simp add: takeWhile_append2)
    moreover have "dropWhile ?N (ds @ s) = dropWhile ?N cs"
      using ds s c by (simp add: dropWhile_append2)
    ultimately show ?thesis using a by simp
  qed
qed

lemma lines_from_first:
  "CHR 0x0A \<notin> set l \<Longrightarrow>
     lines_from cur (l @ CHR 0x0A # rest) = (cur @ l @ [CHR 0x0A]) # lines_from [] rest"
  by (induction l arbitrary: cur) auto

lemma lines_from_last:
  "CHR 0x0A \<notin> set l \<Longrightarrow> lines_from cur l = (if cur @ l = [] then [] else [cur @ l])"
  by (induction l arbitrary: cur) auto

lemma readline_first:
  assumes "CHR 0x0A \<notin> set l"
  shows "readline (l @ CHR 0x0A # rest) = l @ [CHR 0x0A]" and "readline l = l"
  using assms by (simp_all add: readline_def readlines_def lines_from_first lines_from_last)

lemma space_not_special: "py_isspace c \<Longrightarrow> c \<noteq> CHR ''='' \<and> c \<noteq> CHR 0x22"
  by (auto simp: py_isspace_def)

lemma strip_quotes_plain:
  assumes "v \<noteq> []" and "hd v \<noteq> q"
  shows "py_strip_chars [q] (q # v @ [q]) = rev (dropWhile (\<lambda>c. c = q) (rev v))"
proof -
  from assms obtain c cs where v: "v = c # cs" and c: "c \<noteq> q" by (cases v) auto
  then have "dropWhile (\<lambda>c. c \<in> set [q]) (q # v @ [q]) = v @ [q]" by simp
  then show ?thesis by (simp add: py_strip_chars_def)
qed

lemma strip_quotes_spaced:
  assumes "w \<noteq> []" and "hd w \<noteq> q" and "v \<noteq> []" and "hd v \<noteq> q"
  shows "py_strip_chars [q] (w @ q # v @ [q]) = w @ q # rev (dropWhile (\<lambda>c. c = q) (rev v))"
proof -
  let ?P = "\<lambda>c. c \<in> set [q]"
  from assms(1,2) have "dropWhile ?P (w @ q # v @ [q]) = w @ q # v @ [q]"
    by (cases w) auto
  then have "py_strip_chars [q] (w @ q # v @ [q])
      = rev (dropWhile ?P (q # (rev v @ q # rev w)))"
    by (simp add: py_strip_chars_def)
  also have "dropWhile ?P (q # (rev v @ q # rev w)) = dropWhile ?P (rev v @ q # rev w)"
    by simp
  also have "\<dots> = dropWhile ?P (rev v) @ q # rev w"
  proof (rule dropWhile_append1)
    show "hd v \<in> set (rev v)" using assms(3) by simp
    show "\<not> hd v \<in> set [q]" using assms(4) by simp
  qed
  finally show ?thesis by simp
qed

lemma rstrip_id: "v \<noteq> [] \<Longrightarrow> last v \<noteq> q \<Longrightarrow> rev (dropWhile (\<lambda>c. c = q) (rev v)) = v"
  by (cases "rev v") (auto simp: last_rev dest: arg_cong [where f = hd])

lemma extract_paths_split:
  assumes eq: "CHR ''='' \<notin> set key" "CHR ''='' \<notin> set r"
    and r: "r \<noteq> []" "\<not> py_isspace (last r)"
    and t: "\<forall>c \<in> set t. py_isspace c"
  shows "py_index (py_split ''='' (py_strip (key @ ''='' @ r @ t))) 1 = Inr r"
proof -
  let ?x = "''='' @ r"
  have "py_strip (key @ ?x @ t) = dropWhile py_isspace key @ ?x"
    using r t by (intro py_strip_frame) (auto simp: py_isspace_def)
  moreover have "CHR ''='' \<notin> set (dropWhile py_isspace key)"
    using eq(1) set_dropWhileD by fast
  ultimately show ?thesis using eq(2) py_split_second [of "CHR ''=''" "dropWhile py_isspace key" r]
    by simp
qed

text \<open>
  Claim C2, as amended.  When the first line of the environment file is a key, an
  equals sign and a value in double quotes (followed at most by whitespace such as
  the line feed), where neither the key nor the value contains an equals sign, the
  value does not itself begin or end with a double quote, and the value has at
  least 6 whitespace-separated tokens, the Locator returns token 1 of the value as
  the printer-config path and token 5 as the log-file path.
\<close>

theorem extract_paths_positions:
  assumes line: "readline content = key @ ''='' @ [CHR 0x22] @ v @ [CHR 0x22] @ t"
    and t: "\<forall>c \<in> set t. py_isspace c"
    and eq: "CHR ''='' \<notin> set key \<union> set v"
    and quotes: "hd v \<noteq> CHR 0x22 \<and> last v \<noteq> CHR 0x22"
    and six: "6 \<le> length (py_split_ws v)"
  shows "extract_paths (readline content) = Inr (py_split_ws v ! 1, py_split_ws v ! 5)"
proof -
  let ?q = "CHR 0x22"
  let ?r = "?q # v @ [?q]"
  from six have v: "v \<noteq> []" by (auto simp: py_split_ws.simps)
  have "py_index (py_split ''='' (py_strip (key @ ''='' @ ?r @ t))) 1 = Inr ?r"
    using eq t by (intro extract_paths_split) (auto simp: py_isspace_def)
  then have second: "py_index (py_split ''='' (py_strip (readline content))) 1 = Inr ?r"
    using line by simp
  have "py_strip_chars [?q] ?r = v"
    using strip_quotes_plain [of v ?q] rstrip_id [of v ?q] v quotes by simp
  with second six show ?thesis
    by (simp add: extract_paths_def Let_def py_index_def)
qed


theorem extract_paths_positions_witness:
  "extract_paths (readline (''KLIPPER_ARGS='' @ [CHR 0x22]
       @ ''/home/pi/klipper/klippy/klippy.py /home/pi/printer_data/config/printer.cfg -I /home/pi/printer_data/comms/klippy.serial -l /home/pi/printer_data/logs/klippy.log -a /home/pi/printer_data/comms/klippy.sock''
       @ [CHR 0x22, CHR 0x0A] @ ''# end''))
     = Inr (''/home/pi/printer_data/config/printer.cfg'', ''/home/pi/printer_data/logs/klippy.log'')"
proof -
  let ?v = "''/home/pi/klipper/klippy/klippy.py /home/pi/printer_data/config/printer.cfg -I /home/pi/printer_data/comms/klippy.serial -l /home/pi/printer_data/logs/klippy.log -a /home/pi/printer_data/comms/klippy.sock''"
  let ?content = "''KLIPPER_ARGS='' @ [CHR 0x22] @ ?v @ [CHR 0x22, CHR 0x0A] @ ''# end''"
  have toks: "py_split_ws ?v = [''/home/pi/klipper/klippy/klippy.py'',
      ''/home/pi/printer_data/config/printer.cfg'', ''-I'',
      ''/home/pi/printer_data/comms/klippy.serial'', ''-l'',
      ''/home/pi/printer_data/logs/klippy.log'', ''-a'',
      ''/home/pi/printer_data/comms/klippy.sock'']"
    by code_simp
  have line: "readline ?content = ''KLIPPER_ARGS'' @ ''='' @ [CHR 0x22] @ ?v @ [CHR 0x22] @ [CHR 0x0A]"
    by code_simp
  have t: "\<forall>c \<in> set [CHR 0x0A]. py_isspace c" by (simp add: py_isspace_def)
  have eq: "CHR ''='' \<notin> set ''KLIPPER_ARGS'' \<union> set ?v" by simp
  have quotes: "hd ?v \<noteq> CHR 0x22 \<and> last ?v \<noteq> CHR 0x22" by simp
  have six: "6 \<le> length (py_split_ws ?v)" by (simp add: toks)
  from extract_paths_positions [OF line t eq quotes six] show ?thesis
    by (simp add: toks)
qed

text \<open>
  Claim C2 as stated fails: a quoted value of 6 tokens whose paths contain an equals
  sign is cut at that sign by \<^verbatim>\<open>split('=')[1]\<close>, and a value that ends with a
  double quote of its own loses it to \<^verbatim>\<open>strip('"')\<close>.
\<close>

theorem extract_paths_positions_counterexample:
  "py_split_ws ''/home/pi/klippy.py /home/pi/a=b/printer.cfg -I /tmp/serial -l /home/pi/a=b/klippy.log''
     = [''/home/pi/klippy.py'', ''/home/pi/a=b/printer.cfg'', ''-I'', ''/tmp/serial'', ''-l'',
        ''/home/pi/a=b/klippy.log'']
   \<and> extract_paths (readline (''KLIPPER_ARGS='' @ [CHR 0x22]
         @ ''/home/pi/klippy.py /home/pi/a=b/printer.cfg -I /tmp/serial -l /home/pi/a=b/klippy.log''
         @ [CHR 0x22, CHR 0x0A]))
       = Inl (IndexError ''list index out of range'')
   \<and> py_split_ws (''a b c d e f'' @ [CHR 0x22]) ! 5 = ''f'' @ [CHR 0x22]
   \<and> extract_paths (readline (''K='' @ [CHR 0x22] @ ''a b c d e f'' @ [CHR 0x22]
         @ [CHR 0x22, CHR 0x0A]))
       = Inr (''b'', ''f'')"
proof -
  have a: "py_split_ws ''/home/pi/klippy.py /home/pi/a=b/printer.cfg -I /tmp/serial -l /home/pi/a=b/klippy.log''
     = [''/home/pi/klippy.py'', ''/home/pi/a=b/printer.cfg'', ''-I'', ''/tmp/serial'', ''-l'',
        ''/home/pi/a=b/klippy.log'']"
    by code_simp
  have b: "extract_paths (readline (''KLIPPER_ARGS='' @ [CHR 0x22]
         @ ''/home/pi/klippy.py /home/pi/a=b/printer.cfg -I /tmp/serial -l /home/pi/a=b/klippy.log''
         @ [CHR 0x22, CHR 0x0A]))
       = Inl (IndexError ''list index out of range'')"
    by code_simp
  have c: "py_split_ws (''a b c d e f'' @ [CHR 0x22]) ! 5 = ''f'' @ [CHR 0x22]"
    by code_simp
  have d: "extract_paths (readline (''K='' @ [CHR 0x22] @ ''a b c d e f'' @ [CHR 0x22]
         @ [CHR 0x22, CHR 0x0A]))
       = Inr (''b'', ''f'')"
    by code_simp
  from a b c d show ?thesis by blast
qed

lemma space_around_equals_same:
  assumes w: "\<forall>c \<in> set w1 \<union> set w2. py_isspace c"
    and pre: "\<forall>l \<in> set pre. \<not> startswith l ''EnvironmentFile''"
    and path: "CHR ''='' \<notin> set path"
    and eq: "CHR ''='' \<notin> set key \<union> set v"
    and v: "v \<noteq> [] \<and> \<not> py_isspace (hd v) \<and> hd v \<noteq> CHR 0x22"
    and t: "\<forall>c \<in> set t. py_isspace c"
  shows "extract_environment_file (pre @ [''EnvironmentFile'' @ w1 @ ''='' @ w2 @ path] @ post)
           = extract_environment_file (pre @ [''EnvironmentFile='' @ path] @ post)
       \<and> extract_paths (key @ w1 @ ''='' @ w2 @ [CHR 0x22] @ v @ [CHR 0x22] @ t)
           = extract_paths (key @ ''='' @ [CHR 0x22] @ v @ [CHR 0x22] @ t)"
proof
  let ?E = "''EnvironmentFile''"
  let ?S = "\<lambda>line. startswith line ?E"
  have w1: "CHR ''='' \<notin> set w1" and w2s: "\<forall>c \<in> set w2. py_isspace c"
    using w space_not_special by auto
  have w2: "CHR ''='' \<notin> set w2" using w2s space_not_special by auto
  have flt: "filter ?S (pre @ [?E @ x] @ post) = (?E @ x) # filter ?S post" for x
    using pre by (simp add: startswith_def)
  have E: "CHR ''='' \<notin> set ?E" by simp
  have "py_index (py_split ''='' ((?E @ w1) @ CHR ''='' # (w2 @ path))) 1 = Inr (w2 @ path)"
    using E w1 w2 path by (intro py_split_second) auto
  then have a: "extract_environment_file (pre @ [?E @ w1 @ ''='' @ w2 @ path] @ post)
      = Inr (py_strip (w2 @ path))"
    unfolding extract_environment_file_def flt by simp
  have "py_index (py_split ''='' (?E @ CHR ''='' # path)) 1 = Inr path"
    using E path by (intro py_split_second) auto
  then have b: "extract_environment_file (pre @ [?E @ ''='' @ path] @ post)
      = Inr (py_strip path)"
    using flt [of "''='' @ path"] by (simp add: extract_environment_file_def)
  from a b py_strip_leading [OF w2s]
  show "extract_environment_file (pre @ [?E @ w1 @ ''='' @ w2 @ path] @ post)
      = extract_environment_file (pre @ [''EnvironmentFile='' @ path] @ post)"
    by simp
next
  let ?q = "CHR 0x22"
  let ?core = "rev (dropWhile (\<lambda>c. c = ?q) (rev v))"
  have w1: "CHR ''='' \<notin> set w1" and w2s: "\<forall>c \<in> set w2. py_isspace c"
    using w space_not_special by auto
  have w2: "CHR ''='' \<notin> set w2" using w2s space_not_special by auto
  have nq: "\<not> py_isspace ?q" by (simp add: py_isspace_def)
  from v have vne: "v \<noteq> []" and hv: "hd v \<noteq> ?q" and hs: "\<not> py_isspace (hd v)" by auto
  from vne hv have core_hd: "?core \<noteq> [] \<and> hd ?core = hd v"
    by (cases v) (auto simp: dropWhile_append3)
  have plain: "py_index (py_split ''='' (py_strip (key @ ''='' @ (?q # v @ [?q]) @ t))) 1
      = Inr (?q # v @ [?q])"
    using eq t nq by (intro extract_paths_split) auto
  have spaced: "py_index (py_split ''='' (py_strip ((key @ w1) @ ''='' @ (w2 @ ?q # v @ [?q]) @ t))) 1
      = Inr (w2 @ ?q # v @ [?q])"
    using eq t nq w1 w2 by (intro extract_paths_split) auto
  have tok_plain: "py_split_ws (py_strip_chars [?q] (?q # v @ [?q])) = py_split_ws ?core"
    using strip_quotes_plain [OF vne hv] by simp
  have "\<exists>h rest. py_split_ws ?core = h # rest
      \<and> py_split_ws (py_strip_chars [?q] (w2 @ ?q # v @ [?q])) = ([?q] @ h) # rest
        \<or> py_split_ws (py_strip_chars [?q] (w2 @ ?q # v @ [?q])) = py_split_ws ?core"
  proof (cases "w2 = []")
    case True
    with tok_plain show ?thesis by simp
  next
    case False
    with w2s nq have "hd w2 \<noteq> ?q" by (cases w2) auto
    from strip_quotes_spaced [OF False this vne hv]
    have "py_split_ws (py_strip_chars [?q] (w2 @ ?q # v @ [?q])) = py_split_ws (w2 @ ([?q] @ ?core))"
      by simp
    also have "\<dots> = py_split_ws ([?q] @ ?core)" by (rule py_split_ws_leading [OF w2s])
    finally have e: "py_split_ws (py_strip_chars [?q] (w2 @ ?q # v @ [?q]))
        = py_split_ws ([?q] @ ?core)" .
    from py_split_ws_glued [of "[?q]" ?core] nq core_hd hs
    obtain h rest where "py_split_ws ?core = h # rest"
      and "py_split_ws ([?q] @ ?core) = ([?q] @ h) # rest" by auto
    with e show ?thesis by auto
  qed
  then have same: "py_index (py_split_ws (py_strip_chars [?q] (w2 @ ?q # v @ [?q]))) (Suc n)
      = py_index (py_split_ws (py_strip_chars [?q] (?q # v @ [?q]))) (Suc n)" for n
    using tok_plain by (auto simp: py_index_def)
  have s1: "py_index (py_split_ws (py_strip_chars [?q] (w2 @ ?q # v @ [?q]))) 1
      = py_index (py_split_ws (py_strip_chars [?q] (?q # v @ [?q]))) 1"
    using same [of 0] by simp
  have "(5::nat) = Suc 4" by simp
  then have s5: "py_index (py_split_ws (py_strip_chars [?q] (w2 @ ?q # v @ [?q]))) 5
      = py_index (py_split_ws (py_strip_chars [?q] (?q # v @ [?q]))) 5"
    using same [of 4] by metis
  have l1: "key @ w1 @ ''='' @ w2 @ [?q] @ v @ [?q] @ t
      = (key @ w1) @ ''='' @ (w2 @ ?q # v @ [?q]) @ t" by simp
  have l2: "key @ ''='' @ [?q] @ v @ [?q] @ t = key @ ''='' @ (?q # v @ [?q]) @ t" by simp
  have "extract_paths (key @ w1 @ ''='' @ w2 @ [?q] @ v @ [?q] @ t)
      = extract_paths (key @ ''='' @ [?q] @ v @ [?q] @ t)"
    unfolding extract_paths_def Let_def l1 l2
    by (simp only: plain spaced s1 s5 sum.case)
  then show "extract_paths (key @ w1 @ ''='' @ w2 @ [?q] @ v @ [?q] @ t)
      = extract_paths (key @ ''='' @ [?q] @ v @ [?q] @ t)" .
qed

lemma read_text_console [simp]: "read_text (w\<lparr>console := c\<rparr>) p = read_text w p"
  by (simp add: read_text_def read_data_def resolve_def abs_components_def)

lemma read_service_result:
  "fst (read_service w)
     = (case read_text w klipper_service_path of
          Inl e \<Rightarrow> Inl e
        | Inr content \<Rightarrow> extract_environment_file (readlines content))"
  by (simp add: read_service_def bind_def seq_def ret_def lift_def print_def
      status_message_def step_message_def split: sum.splits)

lemma read_environment_file_result:
  "fst (read_environment_file path w)
     = (case read_text w path of
          Inl e \<Rightarrow> Inl e
        | Inr content \<Rightarrow> extract_paths (readline content))"
  by (simp add: read_environment_file_def bind_def seq_def ret_def lift_def print_def
      status_message_def step_message_def split: sum.splits)

text \<open>
  Claim C6, as amended.  For well-formed files (no line before the
  \<^verbatim>\<open>EnvironmentFile\<close> line starts with that key; the path and the key and quoted
  value of the environment line contain no equals sign) whitespace inserted before
  and after the equals sign changes neither the environment-file path read from the
  service file nor the two paths read from the environment line, provided that the
  quoted value starts with a character that is neither whitespace nor a double
  quote.  Extraction is a function of the file contents: what steps 2 and 4 return
  is determined by the text of the file they read.
\<close>

theorem extraction_independent_of_space_around_equals:
  assumes "\<forall>c \<in> set w1 \<union> set w2. py_isspace c"
    and "\<forall>l \<in> set pre. \<not> startswith l ''EnvironmentFile''"
    and "CHR ''='' \<notin> set path"
    and "CHR ''='' \<notin> set key \<union> set v"
    and "v \<noteq> [] \<and> \<not> py_isspace (hd v) \<and> hd v \<noteq> CHR 0x22"
    and "\<forall>c \<in> set t. py_isspace c"
  shows "extract_environment_file (pre @ [''EnvironmentFile'' @ w1 @ ''='' @ w2 @ path] @ post)
           = extract_environment_file (pre @ [''EnvironmentFile='' @ path] @ post)
       \<and> extract_paths (key @ w1 @ ''='' @ w2 @ [CHR 0x22] @ v @ [CHR 0x22] @ t)
           = extract_paths (key @ ''='' @ [CHR 0x22] @ v @ [CHR 0x22] @ t)
       \<and> fst (read_service host)
           = (case read_text host klipper_service_path of
                Inl e \<Rightarrow> Inl e
              | Inr content \<Rightarrow> extract_environment_file (readlines content))
       \<and> fst (read_environment_file environment_file_path host)
           = (case read_text host environment_file_path of
                Inl e \<Rightarrow> Inl e
              | Inr content \<Rightarrow> extract_paths (readline content))"
proof -
  note same = space_around_equals_same [OF assms, where post = post]
  from same have a: "extract_environment_file
        (pre @ [''EnvironmentFile'' @ w1 @ ''='' @ w2 @ path] @ post)
      = extract_environment_file (pre @ [''EnvironmentFile='' @ path] @ post)"
    by (rule conjunct1)
  from same have b: "extract_paths (key @ w1 @ ''='' @ w2 @ [CHR 0x22] @ v @ [CHR 0x22] @ t)
      = extract_paths (key @ ''='' @ [CHR 0x22] @ v @ [CHR 0x22] @ t)"
    by (rule conjunct2)
  have c: "fst (read_service host)
      = (case read_text host klipper_service_path of
           Inl e \<Rightarrow> Inl e
         | Inr content \<Rightarrow> extract_environment_file (readlines content))"
    by (rule read_service_result)
  have d: "fst (read_environment_file environment_file_path host)
      = (case read_text host environment_file_path of
           Inl e \<Rightarrow> Inl e
         | Inr content \<Rightarrow> extract_paths (readline content))"
    by (rule read_environment_file_result)
  from a b c d show ?thesis by blast
qed

theorem extraction_independent_of_space_around_equals_witness:
  "extract_environment_file
       ([''[Service]'' @ [CHR 0x0A]]
          @ [''EnvironmentFile'' @ '' '' @ ''='' @ ''  '' @ (''/home/pi/printer_data/systemd/klipper.env'' @ [CHR 0x0A])]
          @ [''User=pi'' @ [CHR 0x0A]])
     = Inr ''/home/pi/printer_data/systemd/klipper.env''
   \<and> extract_paths (''KLIPPER_ARGS'' @ '' '' @ ''='' @ ''  '' @ [CHR 0x22]
         @ ''/home/pi/klippy.py /home/pi/printer_data/config/printer.cfg -I /tmp/serial -l /home/pi/printer_data/logs/klippy.log''
         @ [CHR 0x22] @ [CHR 0x0A])
       = Inr (''/home/pi/printer_data/config/printer.cfg'', ''/home/pi/printer_data/logs/klippy.log'')"
proof -
  let ?v = "''/home/pi/klippy.py /home/pi/printer_data/config/printer.cfg -I /tmp/serial -l /home/pi/printer_data/logs/klippy.log''"
  let ?path = "''/home/pi/printer_data/systemd/klipper.env'' @ [CHR 0x0A]"
  have w: "\<forall>c \<in> set '' '' \<union> set ''  ''. py_isspace c" by (simp add: py_isspace_def)
  have pre: "\<forall>l \<in> set [''[Service]'' @ [CHR 0x0A]]. \<not> startswith l ''EnvironmentFile''"
    by (simp add: startswith_def)
  have path: "CHR ''='' \<notin> set ?path" by simp
  have eq: "CHR ''='' \<notin> set ''KLIPPER_ARGS'' \<union> set ?v" by simp
  have v: "?v \<noteq> [] \<and> \<not> py_isspace (hd ?v) \<and> hd ?v \<noteq> CHR 0x22"
    by (simp add: py_isspace_def)
  have t: "\<forall>c \<in> set [CHR 0x0A]. py_isspace c" by (simp add: py_isspace_def)
  have plain1: "extract_environment_file
       ([''[Service]'' @ [CHR 0x0A]] @ [''EnvironmentFile='' @ ?path] @ [''User=pi'' @ [CHR 0x0A]])
     = Inr ''/home/pi/printer_data/systemd/klipper.env''"
    by code_simp
  have plain2: "extract_paths (''KLIPPER_ARGS'' @ ''='' @ [CHR 0x22] @ ?v @ [CHR 0x22] @ [CHR 0x0A])
       = Inr (''/home/pi/printer_data/config/printer.cfg'', ''/home/pi/printer_data/logs/klippy.log'')"
    by code_simp
  note th = extraction_independent_of_space_around_equals [OF w pre path eq v t,
      where post = "[''User=pi'' @ [CHR 0x0A]]"]
  from th [THEN conjunct1] th [THEN conjunct2, THEN conjunct1] plain1 plain2
  show ?thesis by (simp only:)
qed

text \<open>
  Claim C6 as stated fails on lines that the Locator reads without error: when the
  quoted value starts with whitespace (also after a double quote of its own), a
  space after the equals sign keeps \<^verbatim>\<open>strip('"')\<close> from removing the opening
  quote, which becomes token 0 and shifts the two paths.
\<close>

theorem extraction_independent_of_space_around_equals_counterexample:
  "extract_paths (''K='' @ [CHR 0x22] @ '' a b c d e f'' @ [CHR 0x22]) = Inr (''b'', ''f'')
   \<and> extract_paths (''K= '' @ [CHR 0x22] @ '' a b c d e f'' @ [CHR 0x22]) = Inr (''a'', ''e'')
   \<and> extract_paths (''K='' @ [CHR 0x22] @ ([CHR 0x22] @ '' a b c d e f'') @ [CHR 0x22])
       = Inr (''b'', ''f'')
   \<and> extract_paths (''K= '' @ [CHR 0x22] @ ([CHR 0x22] @ '' a b c d e f'') @ [CHR 0x22])
       = Inr (''a'', ''e'')"
proof -
  have a: "extract_paths (''K='' @ [CHR 0x22] @ '' a b c d e f'' @ [CHR 0x22]) = Inr (''b'', ''f'')"
    by code_simp
  have b: "extract_paths (''K= '' @ [CHR 0x22] @ '' a b c d e f'' @ [CHR 0x22]) = Inr (''a'', ''e'')"
    by code_simp
  have c: "extract_paths (''K='' @ [CHR 0x22] @ ([CHR 0x22] @ '' a b c d e f'') @ [CHR 0x22])
       = Inr (''b'', ''f'')" by code_simp
  have d: "extract_paths (''K= '' @ [CHR 0x22] @ ([CHR 0x22] @ '' a b c d e f'') @ [CHR 0x22])
       = Inr (''a'', ''e'')" by code_simp
  from a b c d show ?thesis by blast
qed


section \<open>Properties of main\<close>






lemma os_listdir_console [simp]: "os_listdir (w\<lparr>console := c\<rparr>) p = os_listdir w p"
  by (simp add: os_listdir_def resolve_def abs_components_def)

lemma log_files_of_empty:
  "log_files_of all_files p = []
     \<longleftrightarrow> (\<forall>f \<in> set all_files.
           \<not> (startswith f p
               \<and> (rotation_form f \<or> (f \<noteq> [] \<and> last f = CHR 0x0A \<and> rotation_form (butlast f)))))"
  by (simp add: log_files_of_def filter_empty_conv re_match_rotation)

text \<open>
  Claim C5.  When the log directory can be listed and none of its names that start
  with \<^verbatim>\<open>klippy.log\<close> is a rotation name (with or without a line feed after it),
  \<^verbatim>\<open>get_newest_log\<close> does not raise and returns None, lines 138 to 143 print the
  status line "No archived klippy log found." and change nothing else, and the
  steps that follow run in that world.
\<close>

theorem no_rotation_found_continues:
  assumes listing: "os_listdir w log_dir = Inr all_files"
    and none: "\<forall>f \<in> set all_files.
        \<not> (startswith f ''klippy.log''
            \<and> (rotation_form f \<or> (f \<noteq> [] \<and> last f = CHR 0x0A \<and> rotation_form (butlast f))))"
  shows "get_newest_log log_dir ''klippy.log'' w = (Inr None, w)
       \<and> copy_newest_log log_dir w
           = (Inr (), w\<lparr>console := console w
                @ [OKGREEN @ ''[OK] No archived klippy log found.'' @ ENDC]\<rparr>)
       \<and> seq (copy_newest_log log_dir) next_steps w
           = next_steps (w\<lparr>console := console w
                @ [OKGREEN @ ''[OK] No archived klippy log found.'' @ ENDC]\<rparr>)"
proof -
  from none have "log_files_of all_files ''klippy.log'' = []"
    by (simp only: log_files_of_empty)
  then have "newest_of all_files ''klippy.log'' = ([], Inr None)"
    by (rule newest_of_no_match)
  with listing have a: "get_newest_log log_dir ''klippy.log'' w = (Inr None, w)"
    by (simp add: get_newest_log_def)
  then have b: "copy_newest_log log_dir w
      = (Inr (), w\<lparr>console := console w
           @ [OKGREEN @ ''[OK] No archived klippy log found.'' @ ENDC]\<rparr>)"
    by (simp add: copy_newest_log_def bind_def status_message_def print_def)
  then have "seq (copy_newest_log log_dir) next_steps w
      = next_steps (w\<lparr>console := console w
           @ [OKGREEN @ ''[OK] No archived klippy log found.'' @ ENDC]\<rparr>)"
    by (simp add: seq_def bind_def)
  with a b show ?thesis by simp
qed

theorem no_rotation_found_continues_witness:
  "copy_newest_log ''/home/pi/printer_data/logs''
       (example_host example_env
          [(''klippy.log'', File (Text ''log'')), (''moonraker.log'', File (Text ''moon'')),
           (''klippy.log.old'', File (Text ''x''))] all_start)
     = (Inr (), (example_host example_env
          [(''klippy.log'', File (Text ''log'')), (''moonraker.log'', File (Text ''moon'')),
           (''klippy.log.old'', File (Text ''x''))] all_start)
          \<lparr>console := [OKGREEN @ ''[OK] No archived klippy log found.'' @ ENDC]\<rparr>)"
proof -
  let ?logs = "[(''klippy.log'', File (Text ''log'')), (''moonraker.log'', File (Text ''moon'')),
           (''klippy.log.old'', File (Text ''x''))]"
  let ?w = "example_host example_env ?logs all_start"
  have listing: "os_listdir ?w ''/home/pi/printer_data/logs''
      = Inr [''klippy.log'', ''moonraker.log'', ''klippy.log.old'']"
    by code_simp
  have none: "\<forall>f \<in> set [''klippy.log'', ''moonraker.log'', ''klippy.log.old''].
        \<not> (startswith f ''klippy.log''
            \<and> (rotation_form f \<or> (f \<noteq> [] \<and> last f = CHR 0x0A \<and> rotation_form (butlast f))))"
    by code_simp
  have "console ?w = []" by (simp add: example_host_def)
  with no_rotation_found_continues [OF listing none, THEN conjunct2, THEN conjunct1]
  show ?thesis by simp
qed

end
